theory Spec2Isabelle
  imports Complex_Main
begin

section \<open>Python values and containers\<close>

text \<open>
  The exceptions that the modelled code of \<^verbatim>\<open>endaq/batch/calc.py\<close> can raise.
  \<open>ExternalError\<close> stands for a failure of \<^verbatim>\<open>idelib.importFile\<close>.
\<close>

datatype error = ValueError | ZeroDivisionError | KeyError | IndexError | TypeError
  | AttributeError | ExternalError

text \<open>
  A Python \<^verbatim>\<open>dict\<close> keeps its keys in the order of their first insertion; storing
  under a key that is present replaces the value in place.
\<close>

type_synonym ('k, 'v) dict = "('k \<times> 'v) list"

definition dict_keys :: "('k, 'v) dict \<Rightarrow> 'k list" where
  "dict_keys d = map fst d"

definition dict_values :: "('k, 'v) dict \<Rightarrow> 'v list" where
  "dict_values d = map snd d"

definition dict_set :: "('k, 'v) dict \<Rightarrow> 'k \<Rightarrow> 'v \<Rightarrow> ('k, 'v) dict" where
  "dict_set d k v =
     (if k \<in> set (dict_keys d)
      then map (\<lambda>(k', v'). if k' = k then (k', v) else (k', v')) d
      else d @ [(k, v)])"

definition dict_get :: "('k, 'v) dict \<Rightarrow> 'k \<Rightarrow> error + 'v" where
  "dict_get d k = (case map_of d k of None \<Rightarrow> Inl KeyError | Some v \<Rightarrow> Inr v)"

text \<open>Sequencing of computations that may raise.\<close>

definition bind :: "error + 'a \<Rightarrow> ('a \<Rightarrow> error + 'b) \<Rightarrow> error + 'b" where
  "bind r f = (case r of Inl e \<Rightarrow> Inl e | Inr x \<Rightarrow> f x)"

fun traverse :: "('a \<Rightarrow> error + 'b) \<Rightarrow> 'a list \<Rightarrow> error + 'b list" where
  "traverse f [] = Inr []"
| "traverse f (x # xs) =
     (case f x of
        Inl e \<Rightarrow> Inl e
      | Inr y \<Rightarrow> (case traverse f xs of Inl e \<Rightarrow> Inl e | Inr ys \<Rightarrow> Inr (y # ys)))"

section \<open>The builder\<close>

text \<open>
  The keyword arguments that \<^verbatim>\<open>GetDataBuilder.__init__\<close> stores in
  \<^verbatim>\<open>self._analyzer_kwargs\<close>.
\<close>

record analyzer_kwargs =
  preferred_chs :: "string list"
  accel_highpass_cutoff :: "real option"
  accel_start_time :: "real option"
  accel_end_time :: "real option"
  accel_start_margin :: "real option"
  accel_end_margin :: "real option"

text \<open>
  The attributes of a \<^verbatim>\<open>GetDataBuilder\<close>. The values of \<^verbatim>\<open>_metrics_queue\<close>
  are all \<^verbatim>\<open>None\<close>, hence \<open>unit\<close>.
\<close>

record builder =
  metrics_queue :: "(string, unit) dict"
  kwargs :: analyzer_kwargs
  psd_freq_bin_width :: "real option"
  psd_freq_start_octave :: "real option"
  psd_bins_per_octave :: "real option"
  psd_window :: "string option"
  pvss_init_freq :: "real option"
  pvss_bins_per_octave :: "real option"
  peak_window_margin_len :: "int option"
  vc_init_freq :: "real option"
  vc_bins_per_octave :: "real option"

definition GetDataBuilder :: "analyzer_kwargs \<Rightarrow> error + builder" where
  "GetDataBuilder kw =
     (if accel_start_time kw \<noteq> None \<and> accel_start_margin kw \<noteq> None then Inl ValueError
      else if accel_end_time kw \<noteq> None \<and> accel_end_margin kw \<noteq> None then Inl ValueError
      else Inr \<lparr>metrics_queue = [], kwargs = kw,
                psd_freq_bin_width = None, psd_freq_start_octave = None,
                psd_bins_per_octave = None, psd_window = None,
                pvss_init_freq = None, pvss_bins_per_octave = None,
                peak_window_margin_len = None,
                vc_init_freq = None, vc_bins_per_octave = None\<rparr>)"

text \<open>Python's \<^verbatim>\<open>int(x)\<close> on a float truncates towards zero.\<close>

definition py_int :: "real \<Rightarrow> int" where
  "py_int x = (if 0 \<le> x then \<lfloor>x\<rfloor> else \<lceil>x\<rceil>)"

text \<open>
  \<^verbatim>\<open>2 ** (1 / (2 * b)) - 2 ** (-1 / (2 * b))\<close>, the relative breadth of the first octave
  band.
\<close>

definition fstart_breadth :: "real \<Rightarrow> real" where
  "fstart_breadth b = 2 powr (1 / (2 * b)) - 2 powr (- 1 / (2 * b))"

definition add_psd ::
  "real option \<Rightarrow> real option \<Rightarrow> real option \<Rightarrow> string \<Rightarrow> builder \<Rightarrow> error + builder" where
  "add_psd freq_bin_width freq_start_octave bins_per_octave window self =
     (if freq_bin_width = None \<and> bins_per_octave = None then Inl ValueError
      else
        bind
          (case freq_bin_width of
             Some w \<Rightarrow> Inr (w, freq_start_octave)
           | None \<Rightarrow>
               (let fso = (case freq_start_octave of None \<Rightarrow> 1 | Some s \<Rightarrow> s) in
                case bins_per_octave of
                  None \<Rightarrow> Inl TypeError
                | Some b \<Rightarrow>
                    if 2 * b = 0 then Inl ZeroDivisionError
                    else if fstart_breadth b = 0 then Inl ZeroDivisionError
                    else if py_int (5 / fstart_breadth b) = 0 then Inl ZeroDivisionError
                    else Inr (fso / of_int (py_int (5 / fstart_breadth b)), Some fso)))
          (\<lambda>(w, fso).
             Inr (self\<lparr>metrics_queue := dict_set (metrics_queue self) ''psd'' (),
                       psd_freq_bin_width := Some w,
                       psd_freq_start_octave := fso,
                       psd_bins_per_octave := bins_per_octave,
                       psd_window := Some window\<rparr>)))"

definition add_pvss :: "real \<Rightarrow> real \<Rightarrow> builder \<Rightarrow> builder" where
  "add_pvss init_freq bins_per_octave self =
     self\<lparr>metrics_queue := dict_set (metrics_queue self) ''pvss'' (),
          pvss_init_freq := Some init_freq,
          pvss_bins_per_octave := Some bins_per_octave\<rparr>"

definition add_metrics :: "builder \<Rightarrow> builder" where
  "add_metrics self =
     (let self1 = self\<lparr>metrics_queue := dict_set (metrics_queue self) ''metrics'' ()\<rparr>
      in if ''pvss'' \<notin> set (dict_keys (metrics_queue self1))
         then self1\<lparr>pvss_init_freq := Some 1, pvss_bins_per_octave := Some 12\<rparr>
         else self1)"

definition add_peaks :: "int \<Rightarrow> builder \<Rightarrow> builder" where
  "add_peaks margin_len self =
     self\<lparr>metrics_queue := dict_set (metrics_queue self) ''peaks'' (),
          peak_window_margin_len := Some margin_len\<rparr>"

definition add_vc_curves :: "real \<Rightarrow> real \<Rightarrow> builder \<Rightarrow> builder" where
  "add_vc_curves init_freq bins_per_octave self =
     (let self1 = self\<lparr>metrics_queue := dict_set (metrics_queue self) ''vc_curves'' ()\<rparr>;
          self2 = (if ''psd'' \<notin> set (dict_keys (metrics_queue self1))
                   then self1\<lparr>psd_freq_bin_width := Some (2 / 10),
                              psd_window := Some ''hanning''\<rparr>
                   else self1)
      in self2\<lparr>vc_init_freq := Some init_freq, vc_bins_per_octave := Some bins_per_octave\<rparr>)"

text \<open>
  One configuration call with its arguments, and a chain of such calls on one builder;
  the chain stops at the first call that raises.
\<close>

datatype call =
    AddPsd "real option" "real option" "real option" string
  | AddPvss real real
  | AddMetrics
  | AddPeaks int
  | AddVcCurves real real

fun apply_call :: "call \<Rightarrow> builder \<Rightarrow> error + builder" where
  "apply_call (AddPsd w s b win) self = add_psd w s b win self"
| "apply_call (AddPvss f b) self = Inr (add_pvss f b self)"
| "apply_call AddMetrics self = Inr (add_metrics self)"
| "apply_call (AddPeaks m) self = Inr (add_peaks m self)"
| "apply_call (AddVcCurves f b) self = Inr (add_vc_curves f b self)"

fun apply_calls :: "call list \<Rightarrow> builder \<Rightarrow> error + builder" where
  "apply_calls [] self = Inr self"
| "apply_calls (c # cs) self = bind (apply_call c self) (apply_calls cs)"

fun call_kind :: "call \<Rightarrow> string" where
  "call_kind (AddPsd w s b win) = ''psd''"
| "call_kind (AddPvss f b) = ''pvss''"
| "call_kind AddMetrics = ''metrics''"
| "call_kind (AddPeaks m) = ''peaks''"
| "call_kind (AddVcCurves f b) = ''vc_curves''"

section \<open>Recordings and the analysis facade\<close>

text \<open>
  Index labels and cell values of the pandas objects. A frequency is \<open>Num\<close>, a peak time
  (\<^verbatim>\<open>timedelta64[us]\<close>) is \<open>Micros\<close>, a peak offset (seconds given to
  \<^verbatim>\<open>pd.to_timedelta\<close>) is \<open>Seconds\<close>. Samples and derived quantities are real numbers;
  the missing value \<^verbatim>\<open>NaN\<close> is \<open>None\<close> where an array can hold it.
\<close>

datatype label = Str string | Num real | Micros int | Seconds real

datatype pyval = FloatV real | IntV int | DateTime int

text \<open>A \<^verbatim>\<open>pd.Series\<close> with a (multi-level) index: its entries in order.\<close>

type_synonym series = "(label list \<times> pyval) list"

record session =
  utcStartTime :: int
  firstTime :: int

record dataset =
  recorderInfo :: "(string, int) dict"
  sessions :: "session list"
  filename :: string

text \<open>
  The accelerometer channel as the code reads it: \<^verbatim>\<open>axis_names\<close>, the timestamps
  \<^verbatim>\<open>eventarray.arraySlice()[0]\<close> (microseconds) and \<^verbatim>\<open>channel.dataset\<close>.
\<close>

record accel_channel =
  axis_names :: "string list"
  times :: "int list"
  ch_dataset :: dataset

text \<open>A named \<^verbatim>\<open>pd.Series\<close> of one metric: its name and its (axis, value) entries.\<close>

type_synonym metric = "string \<times> (string \<times> real) list"

text \<open>
  The attributes of \<^verbatim>\<open>endaq.batch.analyzer.Analyzer\<close> that \<^verbatim>\<open>calc.py\<close> reads. The class
  itself is not part of the sources at hand, so its results are fields of a record.
  Arrays are lists of rows (one row per axis).
\<close>

record analyzer =
  channels :: "(string, accel_channel) dict"
  accelerationData :: "real list list"
  accelerationResultant :: "real list"
  accelerationFs :: real
  PSDData :: "real list \<times> real list list"
  PVSSData :: "real list \<times> real list list"
  VCCurveData :: "real list \<times> real list list"
  MPS2_TO_G :: real
  MPS_TO_MMPS :: real
  MPS_TO_UMPS :: real
  accRMSFull :: metric
  velRMSFull :: metric
  disRMSFull :: metric
  accPeakFull :: metric
  pseudoVelPeakFull :: metric
  gpsLocFull :: metric
  gpsSpeedFull :: metric
  gyroRMSFull :: metric
  micRMSFull :: metric
  tempFull :: metric
  pressFull :: metric

text \<open>The arguments of the \<^verbatim>\<open>Analyzer\<close> constructor call in \<^verbatim>\<open>_get_data\<close>.\<close>

record analyzer_args =
  arg_kwargs :: analyzer_kwargs
  arg_psd_window :: "string option"
  arg_psd_freq_bin_width :: "real option"
  arg_pvss_init_freq :: "real option"
  arg_pvss_bins_per_octave :: "real option"
  arg_vc_init_freq :: "real option"
  arg_vc_bins_per_octave :: "real option"

text \<open>
  The collaborators outside \<^verbatim>\<open>calc.py\<close>: \<^verbatim>\<open>idelib.importFile\<close>, the \<^verbatim>\<open>Analyzer\<close>
  constructor and \<^verbatim>\<open>utils_psd.to_octave\<close> (frequencies, values, start frequency, bins
  per octave), taken as parameters.
\<close>

record world =
  importFile :: "string \<Rightarrow> error + dataset"
  Analyzer :: "dataset \<Rightarrow> analyzer_args \<Rightarrow> analyzer"
  to_octave :: "real list \<Rightarrow> real list list \<Rightarrow> real \<Rightarrow> real \<Rightarrow> real list \<times> real list list"

section \<open>Per-recording formatters\<close>

definition make_meta :: "dataset \<Rightarrow> error + series" where
  "make_meta ds =
     bind (dict_get (recorderInfo ds) ''RecorderSerial'') (\<lambda>serial_no.
       case sessions ds of
         [] \<Rightarrow> Inl IndexError
       | s # _ \<Rightarrow>
           Inr [([Str ''serial number''], IntV serial_no),
                ([Str ''start time''], DateTime (utcStartTime s * 1000000 + firstTime s))])"

text \<open>
  Modelled from the spec: \<^verbatim>\<open>utils_stats.L2_norm\<close> is not in the sources at hand; the
  spec's norm contract is the Euclidean norm across the axis columns.
\<close>

definition L2_norm :: "real list \<Rightarrow> real" where
  "L2_norm xs = sqrt (sum_list (map (\<lambda>x. x * x) xs))"

text \<open>
  The common shape of \<^verbatim>\<open>_make_psd\<close>, \<^verbatim>\<open>_make_pvss\<close> and \<^verbatim>\<open>_make_vc_curves\<close>: a
  frame of the scaled, transposed values with one column per axis (the constructor
  raises when the shapes disagree), the \<^verbatim>\<open>Resultant\<close> column stored into it, and the
  frame stacked into entries indexed by (axis, frequency).
\<close>

definition spectrum_series ::
  "real list \<Rightarrow> real list list \<Rightarrow> real \<Rightarrow> string list \<Rightarrow> (real list \<Rightarrow> real) \<Rightarrow> error + series" where
  "spectrum_series f vals scale names resultant =
     (if length vals \<noteq> length names \<or> \<not> list_all (\<lambda>row. length row = length f) vals
      then Inl ValueError
      else Inr (concat (map (\<lambda>k.
             (let cells = map (\<lambda>row. row ! k * scale) vals;
                  cols = dict_set (zip names cells) ''Resultant'' (resultant cells)
              in map (\<lambda>(name, v). ([Str name, Num (f ! k)], FloatV v)) cols))
           [0..<length f])))"

definition make_psd :: "world \<Rightarrow> real option \<Rightarrow> real option \<Rightarrow> analyzer \<Rightarrow> error + series option" where
  "make_psd w fstart bins_per_octave a =
     (case map_of (channels a) ''acc'' of
        None \<Rightarrow> Inr None
      | Some accel_ch \<Rightarrow>
          (let (f, psd) = PSDData a;
               (f, psd) = (case bins_per_octave of
                             None \<Rightarrow> (f, psd)
                           | Some b \<Rightarrow>
                               to_octave w f psd
                                 (case fstart of None \<Rightarrow> 1 | Some s \<Rightarrow> if s = 0 then 1 else s) b)
           in bind (spectrum_series f psd (MPS2_TO_G a * MPS2_TO_G a) (axis_names accel_ch) sum_list)
                (\<lambda>s. Inr (Some s))))"

definition make_pvss :: "analyzer \<Rightarrow> error + series option" where
  "make_pvss a =
     (case map_of (channels a) ''acc'' of
        None \<Rightarrow> Inr None
      | Some accel_ch \<Rightarrow>
          (let (f, pvss) = PVSSData a
           in bind (spectrum_series f pvss (MPS_TO_MMPS a) (axis_names accel_ch) L2_norm)
                (\<lambda>s. Inr (Some s))))"

definition make_vc_curves :: "analyzer \<Rightarrow> error + series option" where
  "make_vc_curves a =
     (case map_of (channels a) ''acc'' of
        None \<Rightarrow> Inr None
      | Some accel_ch \<Rightarrow>
          (let (f, vc) = VCCurveData a
           in bind (spectrum_series f vc (MPS_TO_UMPS a) (axis_names accel_ch) L2_norm)
                (\<lambda>s. Inr (Some s))))"

text \<open>
  \<^verbatim>\<open>_make_metrics\<close> has no guard on the accelerometer channel: it builds a frame with
  one row per metric and stacks it, which keeps the entries that are present.
\<close>

definition stack_metric :: "metric \<Rightarrow> series" where
  "stack_metric m = map (\<lambda>(axis, v). ([Str (fst m), Str axis], FloatV v)) (snd m)"

definition make_metrics :: "analyzer \<Rightarrow> error + series option" where
  "make_metrics a =
     Inr (Some (concat (map stack_metric
       [accRMSFull a, velRMSFull a, disRMSFull a, accPeakFull a, pseudoVelPeakFull a,
        gpsLocFull a, gpsSpeedFull a, gyroRMSFull a, micRMSFull a, tempFull a,
        pressFull a])))"

section \<open>Peak windows\<close>

text \<open>
  A bound of a Python or numpy slice over a sequence of length \<open>n\<close>: a negative bound
  counts from the end, and a bound beyond either end is clipped to it.
\<close>

definition norm_index :: "int \<Rightarrow> nat \<Rightarrow> nat" where
  "norm_index k n =
     (if k < 0 then (if k + int n < 0 then 0 else nat (k + int n))
      else (if int n < k then n else nat k))"

definition py_slice :: "'a list \<Rightarrow> int \<Rightarrow> int \<Rightarrow> 'a list" where
  "py_slice xs a b =
     (let s = norm_index a (length xs); e = norm_index b (length xs)
      in take (e - s) (drop s xs))"

text \<open>
  numpy's \<^verbatim>\<open>xs[a:b] = vs\<close>: the lengths must agree, except that one value is
  broadcast over the slice; otherwise numpy raises \<^verbatim>\<open>ValueError\<close>.
\<close>

definition py_set_slice :: "'a list \<Rightarrow> int \<Rightarrow> int \<Rightarrow> 'a list \<Rightarrow> error + 'a list" where
  "py_set_slice xs a b vs =
     (let s = norm_index a (length xs); e = norm_index b (length xs); d = e - s
      in if length vs = d then Inr (take s xs @ vs @ drop (s + d) xs)
         else if length vs = 1 then Inr (take s xs @ replicate d (hd vs) @ drop (s + d) xs)
         else Inl ValueError)"

text \<open>
  \<^verbatim>\<open>np.argmax\<close> of one row: the first index of the largest value; it raises
  \<^verbatim>\<open>ValueError\<close> on an empty row. \<open>argmax_from xs k best bv\<close> scans the rest \<open>xs\<close>
  of the row from index \<open>k\<close> with the best index and value so far.
\<close>

fun argmax_from :: "real list \<Rightarrow> nat \<Rightarrow> nat \<Rightarrow> real \<Rightarrow> nat" where
  "argmax_from [] k best bv = best"
| "argmax_from (x # xs) k best bv =
     (if bv < x then argmax_from xs (Suc k) k x else argmax_from xs (Suc k) best bv)"

definition argmax :: "real list \<Rightarrow> error + nat" where
  "argmax xs = (case xs of [] \<Rightarrow> Inl ValueError | x # rest \<Rightarrow> Inr (argmax_from rest 1 0 x))"

text \<open>
  \<^verbatim>\<open>MPS2_TO_G * np.concatenate([_accelerationData, _accelerationResultant[None]])\<close>:
  the rows must have the length of the resultant.
\<close>

definition accel_data :: "analyzer \<Rightarrow> error + real list list" where
  "accel_data a =
     (if list_all (\<lambda>row. length row = length (accelerationResultant a)) (accelerationData a)
      then Inr (map (map (\<lambda>x. MPS2_TO_G a * x)) (accelerationData a @ [accelerationResultant a]))
      else Inl ValueError)"

text \<open>
  One pass of the loop over the channels: column \<open>j\<close> of \<^verbatim>\<open>result_data\<close>, which starts
  filled with \<^verbatim>\<open>NaN\<close>, receives the slice of row \<open>j\<close> about its peak \<open>i\<close>. \<open>n\<close> is
  \<^verbatim>\<open>data.shape[1]\<close>.
\<close>

definition peak_window_column :: "int \<Rightarrow> nat \<Rightarrow> real list \<Rightarrow> nat \<Rightarrow> error + real option list" where
  "peak_window_column margin_len n row i =
     (let i_max = int i; i_max_neg = i_max - int n
      in py_set_slice (replicate (nat (2 * margin_len + 1)) None)
           (- margin_len - 1 - i_max) (margin_len - i_max_neg)
           (py_slice (map Some row) (i_max_neg - margin_len) (i_max + margin_len + 1)))"

text \<open>
  \<^verbatim>\<open>result_data\<close> as the list of its columns, with \<^verbatim>\<open>i_max\<close>. \<^verbatim>\<open>np.full\<close> raises on a
  negative window length.
\<close>

definition peak_window_data ::
  "real list list \<Rightarrow> nat \<Rightarrow> int \<Rightarrow> error + nat list \<times> real option list list" where
  "peak_window_data data n margin_len =
     (if 2 * margin_len + 1 < 0 then Inl ValueError
      else
        bind (traverse argmax (map (map abs) data)) (\<lambda>i_max.
        bind (traverse (\<lambda>(row, i). peak_window_column margin_len n row i) (zip data i_max))
          (\<lambda>result_data. Inr (i_max, result_data))))"

text \<open>
  \<^verbatim>\<open>t = accel_ch.eventarray.arraySlice()[0] - accel_ch.channel.dataset.sessions[0].firstTime\<close>
\<close>

definition peak_times :: "accel_channel \<Rightarrow> error + int list" where
  "peak_times accel_ch =
     (case sessions (ch_dataset accel_ch) of
        [] \<Rightarrow> Inl IndexError
      | s # _ \<Rightarrow> Inr (map (\<lambda>x. x - firstTime s) (times accel_ch)))"

text \<open>
  The frame over \<^verbatim>\<open>result_data\<close> has the row index \<^verbatim>\<open>dt * k\<close> for
  \<open>k = -margin_len, \<dots>, margin_len\<close> and one column per channel, labelled (axis, peak
  time). The two calls of \<^verbatim>\<open>stack\<close> (with pandas' default \<^verbatim>\<open>dropna=True\<close>) turn it
  into entries indexed by (axis, peak time, peak offset), one for each cell that is not
  \<^verbatim>\<open>NaN\<close>. The order of the entries inside one recording's series is pandas' own and
  is not represented: here they run by offset, then by column.
\<close>

definition stack_windows ::
  "int \<Rightarrow> real \<Rightarrow> string list \<Rightarrow> int list \<Rightarrow> real option list list \<Rightarrow> series" where
  "stack_windows margin_len dt names peak_t result_data =
     concat (map (\<lambda>k.
       concat (map (\<lambda>(name, pt, col).
         case col ! k of
           None \<Rightarrow> []
         | Some v \<Rightarrow> [([Str name, Micros pt, Seconds (dt * real_of_int (int k - margin_len))], FloatV v)])
         (zip names (zip peak_t result_data))))
       [0..<nat (2 * margin_len + 1)])"

definition make_peak_windows :: "int option \<Rightarrow> analyzer \<Rightarrow> error + series option" where
  "make_peak_windows margin_len a =
     (case map_of (channels a) ''acc'' of
        None \<Rightarrow> Inr None
      | Some accel_ch \<Rightarrow>
          bind (accel_data a) (\<lambda>data.
          bind (case margin_len of None \<Rightarrow> Inl TypeError | Some m \<Rightarrow> Inr m) (\<lambda>m.
          bind (peak_times accel_ch) (\<lambda>t.
          bind (if accelerationFs a = 0 then Inl ZeroDivisionError
                else Inr (1 / accelerationFs a)) (\<lambda>dt.
          bind (peak_window_data data (length (accelerationResultant a)) m) (\<lambda>(i_max, result_data).
          bind (traverse (\<lambda>i. if i < length t then Inr (t ! i) else Inl IndexError) i_max) (\<lambda>peak_t.
            if length (axis_names accel_ch) + 1 \<noteq> length data then Inl ValueError
            else Inr (Some (stack_windows m dt (axis_names accel_ch @ [''Resultant''])
                              peak_t result_data)))))))))"

section \<open>Extraction and aggregation\<close>

text \<open>The dictionary \<^verbatim>\<open>funcs\<close> of \<^verbatim>\<open>_get_data\<close>.\<close>

definition funcs :: "world \<Rightarrow> builder \<Rightarrow> (string, analyzer \<Rightarrow> error + series option) dict" where
  "funcs w self =
     [(''psd'', make_psd w (psd_freq_start_octave self) (psd_bins_per_octave self)),
      (''pvss'', make_pvss),
      (''metrics'', make_metrics),
      (''peaks'', make_peak_windows (peak_window_margin_len self)),
      (''vc_curves'', make_vc_curves)]"

text \<open>The loop of \<^verbatim>\<open>_get_data\<close> over the keys of the queue, storing into \<^verbatim>\<open>data\<close>.\<close>

fun run_queue ::
  "(string, analyzer \<Rightarrow> error + series option) dict \<Rightarrow> analyzer \<Rightarrow> string list \<Rightarrow>
   (string, series option) dict \<Rightarrow> error + (string, series option) dict" where
  "run_queue fs a [] data = Inr data"
| "run_queue fs a (output_type # rest) data =
     bind (dict_get fs output_type) (\<lambda>f.
     bind (f a) (\<lambda>v. run_queue fs a rest (dict_set data output_type v)))"

definition get_data :: "world \<Rightarrow> builder \<Rightarrow> string \<Rightarrow> error + (string, series option) dict" where
  "get_data w self fname =
     bind (importFile w fname) (\<lambda>ds.
       (let analyzer = Analyzer w ds
              \<lparr>arg_kwargs = kwargs self,
               arg_psd_window = psd_window self,
               arg_psd_freq_bin_width = psd_freq_bin_width self,
               arg_pvss_init_freq = pvss_init_freq self,
               arg_pvss_bins_per_octave = pvss_bins_per_octave self,
               arg_vc_init_freq = vc_init_freq self,
               arg_vc_bins_per_octave = vc_bins_per_octave self\<rparr>
        in bind (make_meta ds) (\<lambda>meta.
             run_queue (funcs w self) analyzer (dict_keys (metrics_queue self))
               [(''meta'', Some meta)])))"

text \<open>
  \<^verbatim>\<open>zip(*lists)\<close>: the tuples of the \<open>i\<close>-th elements, as many as the shortest list
  has; none when there is no list at all.
\<close>

definition zip_star :: "'a list list \<Rightarrow> 'a list list" where
  "zip_star xss =
     (case xss of
        [] \<Rightarrow> []
      | xs # rest \<Rightarrow>
          map (\<lambda>i. map (\<lambda>ys. ys ! i) xss) [0..<foldr (\<lambda>ys m. min (length ys) m) rest (length xs)])"

text \<open>
  \<^verbatim>\<open>pd.concat(series_list, keys=filenames)\<close>: the objects that are \<^verbatim>\<open>None\<close> are dropped
  together with their keys, and the key becomes the first index level of the entries of
  its object.
\<close>

definition pd_concat :: "string list \<Rightarrow> series option list \<Rightarrow> series" where
  "pd_concat keys objs =
     concat (map (\<lambda>(k, obj).
       case obj of None \<Rightarrow> [] | Some s \<Rightarrow> map (\<lambda>(idx, v). (Str k # idx, v)) s)
       (zip keys objs))"

definition concat_or_none :: "string list \<Rightarrow> series option list \<Rightarrow> series option" where
  "concat_or_none filenames series_list =
     (if series_list \<noteq> [] \<and> list_ex (\<lambda>s. s \<noteq> None) series_list
      then Some (pd_concat filenames series_list)
      else None)"

text \<open>
  \<^verbatim>\<open>meta.unstack(level=1)\<close> on a series with a two-level index: one row per first-level
  label, one column per second-level label. pandas raises \<^verbatim>\<open>ValueError\<close> when the index
  has duplicate entries. The order of the rows (pandas sorts them) is not represented.
\<close>

type_synonym frame = "(label, (label, pyval) dict) dict"

fun unstack_rows :: "series \<Rightarrow> frame \<Rightarrow> error + frame" where
  "unstack_rows [] fr = Inr fr"
| "unstack_rows (([r, c], v) # rest) fr =
     unstack_rows rest
       (dict_set fr r (dict_set (case map_of fr r of None \<Rightarrow> [] | Some row \<Rightarrow> row) c v))"
| "unstack_rows (_ # rest) fr = Inl IndexError"

definition unstack :: "series \<Rightarrow> error + frame" where
  "unstack s = (if distinct (map fst s) then unstack_rows s [] else Inl ValueError)"

text \<open>\<^verbatim>\<open>meta.loc[label, column]\<close> for one label.\<close>

definition loc :: "frame \<Rightarrow> label \<Rightarrow> string \<Rightarrow> error + pyval" where
  "loc meta l column = bind (dict_get meta l) (\<lambda>row. dict_get row (Str column))"

text \<open>
  A row of a tidy table: the recording (\<^verbatim>\<open>filename\<close>), the remaining index columns,
  \<^verbatim>\<open>value\<close>, and the two joined columns.
\<close>

record tidy_row =
  row_filename :: label
  row_index :: "label list"
  row_value :: pyval
  serial_number :: pyval
  start_time :: pyval

text \<open>
  \<^verbatim>\<open>series.to_frame().T.melt()\<close>: one row per entry of the series, the index levels
  as columns.
\<close>

definition melt :: "series \<Rightarrow> error + (label \<times> label list \<times> pyval) list" where
  "melt s = traverse (\<lambda>(idx, v). case idx of [] \<Rightarrow> Inl KeyError | f # rest \<Rightarrow> Inr (f, rest, v)) s"

definition reformat :: "frame \<Rightarrow> series option \<Rightarrow> error + tidy_row list option" where
  "reformat meta series =
     (case series of
        None \<Rightarrow> Inr None
      | Some s \<Rightarrow>
          bind (melt s) (\<lambda>df.
          bind (traverse (\<lambda>(f, idx, v). loc meta f ''serial number'') df) (\<lambda>serials.
          bind (traverse (\<lambda>(f, idx, v). loc meta f ''start time'') df) (\<lambda>starts.
            Inr (Some (map (\<lambda>((f, idx, v), sn, st).
                   \<lparr>row_filename = f, row_index = idx, row_value = v,
                    serial_number = sn, start_time = st\<rparr>)
                 (zip df (zip serials starts))))))))"

datatype dataframe = MetaTable frame | Tidy "tidy_row list"

record OutputStruct =
  dataframes :: "(string, dataframe option) dict"

text \<open>
  \<^verbatim>\<open>aggregate_data\<close>. The unpacking \<^verbatim>\<open>meta, *dfs = ...\<close> raises \<^verbatim>\<open>ValueError\<close> when there
  is nothing to unpack; \<^verbatim>\<open>meta.unstack\<close> on \<^verbatim>\<open>None\<close> raises \<^verbatim>\<open>AttributeError\<close>.
\<close>

definition aggregate_data :: "world \<Rightarrow> builder \<Rightarrow> string list \<Rightarrow> error + OutputStruct" where
  "aggregate_data w self filenames =
     bind (traverse (get_data w self) filenames) (\<lambda>datas.
       (let series_lists = zip_star (map dict_values datas)
        in case map (concat_or_none filenames) series_lists of
             [] \<Rightarrow> Inl ValueError
           | meta # dfs \<Rightarrow>
               (case meta of
                  None \<Rightarrow> Inl AttributeError
                | Some m \<Rightarrow>
                    bind (unstack m) (\<lambda>meta.
                    bind (traverse (\<lambda>(key, df).
                            bind (reformat meta df) (\<lambda>t. Inr (key, map_option Tidy t)))
                          (zip (dict_keys (metrics_queue self)) dfs)) (\<lambda>tables.
                      Inr \<lparr>dataframes =
                             foldl (\<lambda>d (key, df). dict_set d key df)
                               [(''meta'', Some (MetaTable meta))] tables\<rparr>)))))"

section \<open>Reference notions used in the statements\<close>

text \<open>The distinct elements of a list in the order of their first occurrence.\<close>

definition first_seen :: "'a list \<Rightarrow> 'a list" where
  "first_seen xs = rev (remdups (rev xs))"

text \<open>
  A builder as \<^verbatim>\<open>GetDataBuilder(accel_highpass_cutoff=1)\<close> returns it, for the
  concrete instances below.
\<close>

definition plain_kwargs :: analyzer_kwargs where
  "plain_kwargs =
     \<lparr>preferred_chs = [], accel_highpass_cutoff = Some 1, accel_start_time = None,
      accel_end_time = None, accel_start_margin = None, accel_end_margin = None\<rparr>"

definition fresh_builder :: builder where
  "fresh_builder =
     \<lparr>metrics_queue = [], kwargs = plain_kwargs,
      psd_freq_bin_width = None, psd_freq_start_octave = None,
      psd_bins_per_octave = None, psd_window = None,
      pvss_init_freq = None, pvss_bins_per_octave = None,
      peak_window_margin_len = None,
      vc_init_freq = None, vc_bins_per_octave = None\<rparr>"

text \<open>
  The concatenated \<^verbatim>\<open>meta\<close> series of the recordings \<open>fs\<close> with serial numbers \<open>S\<close> and start
  times \<open>T\<close>, and the frame that \<^verbatim>\<open>unstack\<close> makes of it.
\<close>

definition meta_rows :: "(string \<Rightarrow> pyval) \<Rightarrow> (string \<Rightarrow> pyval) \<Rightarrow> string list \<Rightarrow> series" where
  "meta_rows S T fs =
     concat (map (\<lambda>f. [([Str f, Str ''serial number''], S f), ([Str f, Str ''start time''], T f)]) fs)"

definition meta_frame :: "(string \<Rightarrow> pyval) \<Rightarrow> (string \<Rightarrow> pyval) \<Rightarrow> string list \<Rightarrow> frame" where
  "meta_frame S T fs =
     map (\<lambda>f. (Str f, [(Str ''serial number'', S f), (Str ''start time'', T f)])) fs"

text \<open>
  What \<^verbatim>\<open>_make_meta\<close> gives for the recording \<open>f\<close>, one of its two fields, and the
  series that \<^verbatim>\<open>_get_data\<close> gives for \<open>f\<close> and the kind \<open>k\<close> (\<open>None\<close> when there is none).
\<close>

definition recording_meta :: "world \<Rightarrow> string \<Rightarrow> error + series" where
  "recording_meta w f = bind (importFile w f) make_meta"

definition meta_value :: "world \<Rightarrow> string \<Rightarrow> string \<Rightarrow> pyval option" where
  "meta_value w f field =
     (case recording_meta w f of Inl e \<Rightarrow> None | Inr m \<Rightarrow> map_of m [Str field])"

definition recording_entry :: "world \<Rightarrow> builder \<Rightarrow> string \<Rightarrow> string \<Rightarrow> series option" where
  "recording_entry w self f k =
     (case get_data w self f of
        Inl e \<Rightarrow> None
      | Inr d \<Rightarrow> (case map_of d k of None \<Rightarrow> None | Some v \<Rightarrow> v))"

text \<open>
  The tidy table expected for one kind: the entries \<open>E f\<close> of the recordings in order,
  each row with the name, the serial number and the start time of its recording;
  \<open>tagged\<close> is the same list before the join.
\<close>

definition tidy_of ::
  "(string \<Rightarrow> pyval) \<Rightarrow> (string \<Rightarrow> pyval) \<Rightarrow> string list \<Rightarrow> (string \<Rightarrow> series option) \<Rightarrow> tidy_row list" where
  "tidy_of S T fs E =
     concat (map (\<lambda>f. case E f of
                        None \<Rightarrow> []
                      | Some s \<Rightarrow>
                          map (\<lambda>(idx, v). \<lparr>row_filename = Str f, row_index = idx, row_value = v,
                                           serial_number = S f, start_time = T f\<rparr>) s) fs)"

definition tagged :: "string list \<Rightarrow> (string \<Rightarrow> series option) \<Rightarrow> (string \<times> label list \<times> pyval) list" where
  "tagged gs E =
     concat (map (\<lambda>f. case E f of None \<Rightarrow> [] | Some s \<Rightarrow> map (\<lambda>(idx, v). (f, idx, v)) s) gs)"

text \<open>
  A small world for the concrete instances: recording \<^verbatim>\<open>a.ide\<close> has an accelerometer
  with one axis and three samples, recording \<^verbatim>\<open>b.ide\<close> has no accelerometer and only
  a temperature metric.
\<close>

definition ds_a :: dataset where
  "ds_a = \<lparr>recorderInfo = [(''RecorderSerial'', 10118)],
           sessions = [\<lparr>utcStartTime = 1600, firstTime = 500\<rparr>],
           filename = ''a.ide''\<rparr>"

definition ds_b :: dataset where
  "ds_b = \<lparr>recorderInfo = [(''RecorderSerial'', 10119)],
           sessions = [\<lparr>utcStartTime = 1700, firstTime = 0\<rparr>],
           filename = ''b.ide''\<rparr>"

definition analyzer_b :: analyzer where
  "analyzer_b =
     \<lparr>channels = [], accelerationData = [], accelerationResultant = [],
      accelerationFs = 0, PSDData = ([], []), PVSSData = ([], []), VCCurveData = ([], []),
      MPS2_TO_G = 1 / 2, MPS_TO_MMPS = 1000, MPS_TO_UMPS = 1000000,
      accRMSFull = (''RMS Acceleration'', []),
      velRMSFull = (''RMS Velocity'', []),
      disRMSFull = (''RMS Displacement'', []),
      accPeakFull = (''Peak Absolute Acceleration'', []),
      pseudoVelPeakFull = (''Peak Pseudo Velocity Shock Spectrum'', []),
      gpsLocFull = (''GPS Position'', []),
      gpsSpeedFull = (''GPS Speed'', []),
      gyroRMSFull = (''RMS Angular Velocity'', []),
      micRMSFull = (''RMS Microphone'', []),
      tempFull = (''Average Temperature'', [(''Temperature'', 25)]),
      pressFull = (''Average Pressure'', [])\<rparr>"

definition channel_a :: accel_channel where
  "channel_a = \<lparr>axis_names = [''X''], times = [500, 600, 700], ch_dataset = ds_a\<rparr>"

definition analyzer_a :: analyzer where
  "analyzer_a =
     analyzer_b
       \<lparr>channels := [(''acc'', channel_a)],
        accelerationData := [[2, - 6, 4]], accelerationResultant := [2, 6, 4],
        accelerationFs := 10000,
        PSDData := ([1], [[4]]),
        PVSSData := ([1], [[3]]),
        VCCurveData := ([1], [[4]]),
        accRMSFull := (''RMS Acceleration'', [(''X'', 2)]),
        tempFull := (''Average Temperature'', [(''Temperature'', 20)])\<rparr>"

definition two_files :: world where
  "two_files =
     \<lparr>importFile = (\<lambda>f. if f = ''a.ide'' then Inr ds_a
                         else if f = ''b.ide'' then Inr ds_b else Inl ExternalError),
      Analyzer = (\<lambda>ds args. if filename ds = ''a.ide'' then analyzer_a else analyzer_b),
      to_octave = (\<lambda>f psd fstart b. (f, psd))\<rparr>"

text \<open>
  The calls \<^verbatim>\<open>.add_psd(freq_bin_width=2).add_peaks(margin_len=1).add_metrics()
  .add_psd(freq_bin_width=1)\<close> and the builder they give.
\<close>

definition some_calls :: "call list" where
  "some_calls = [AddPsd (Some 2) None None ''hanning'', AddPeaks 1, AddMetrics,
                 AddPsd (Some 1) None None ''hanning'']"

definition some_builder :: builder where
  "some_builder =
     fresh_builder
       \<lparr>metrics_queue := [(''psd'', ()), (''peaks'', ()), (''metrics'', ())],
        psd_freq_bin_width := Some 1, psd_window := Some ''hanning'',
        pvss_init_freq := Some 1, pvss_bins_per_octave := Some 12,
        peak_window_margin_len := Some 1\<rparr>"

text \<open>The tables expected from aggregating the two recordings with that builder.\<close>

definition two_files_tables :: "(string, dataframe option) dict" where
  "two_files_tables =
     [(''meta'',
        Some (MetaTable
          [(Str ''a.ide'', [(Str ''serial number'', IntV 10118),
                            (Str ''start time'', DateTime 1600000500)]),
           (Str ''b.ide'', [(Str ''serial number'', IntV 10119),
                            (Str ''start time'', DateTime 1700000000)])])),
      (''psd'',
        Some (Tidy (map (\<lambda>(idx, v). \<lparr>row_filename = Str ''a.ide'', row_index = idx, row_value = v,
                           serial_number = IntV 10118, start_time = DateTime 1600000500\<rparr>)
          [([Str ''X'', Num 1], FloatV 1), ([Str ''Resultant'', Num 1], FloatV 1)]))),
      (''peaks'',
        Some (Tidy (map (\<lambda>(idx, v). \<lparr>row_filename = Str ''a.ide'', row_index = idx, row_value = v,
                           serial_number = IntV 10118, start_time = DateTime 1600000500\<rparr>)
          [([Str ''X'', Micros 100, Seconds (- (1 / 10000))], FloatV 1),
           ([Str ''Resultant'', Micros 100, Seconds (- (1 / 10000))], FloatV 1),
           ([Str ''X'', Micros 100, Seconds 0], FloatV (- 3)),
           ([Str ''Resultant'', Micros 100, Seconds 0], FloatV 3),
           ([Str ''X'', Micros 100, Seconds (1 / 10000)], FloatV 2),
           ([Str ''Resultant'', Micros 100, Seconds (1 / 10000)], FloatV 2)]))),
      (''metrics'',
        Some (Tidy
          (map (\<lambda>(idx, v). \<lparr>row_filename = Str ''a.ide'', row_index = idx, row_value = v,
                           serial_number = IntV 10118, start_time = DateTime 1600000500\<rparr>)
             [([Str ''RMS Acceleration'', Str ''X''], FloatV 2),
              ([Str ''Average Temperature'', Str ''Temperature''], FloatV 20)]
           @ map (\<lambda>(idx, v). \<lparr>row_filename = Str ''b.ide'', row_index = idx, row_value = v,
                           serial_number = IntV 10119, start_time = DateTime 1700000000\<rparr>)
             [([Str ''Average Temperature'', Str ''Temperature''], FloatV 25)])))]"

text \<open>
  An analyzer with two axes whose peaks lie at different samples: \<^verbatim>\<open>X\<close> peaks at the
  second of three samples, \<^verbatim>\<open>Y\<close> and the resultant at the first one.
\<close>

definition channel_xy :: accel_channel where
  "channel_xy = \<lparr>axis_names = [''X'', ''Y''], times = [500, 600, 700], ch_dataset = ds_a\<rparr>"

definition analyzer_xy :: analyzer where
  "analyzer_xy =
     analyzer_b
       \<lparr>channels := [(''acc'', channel_xy)],
        accelerationData := [[2, - 6, 4], [8, 2, 2]], accelerationResultant := [8, 6, 4],
        accelerationFs := 10000\<rparr>"

text \<open>
  Reference notions for the peak windows: the index that \<^verbatim>\<open>np.argmax(np.abs(row))\<close> gives
  for a row, the cell at row \<open>k\<close> of the window of half-width \<open>M\<close> about that index
  (sample \<open>i + k - M\<close> when it exists, the sentinel otherwise), the index key of a
  row of the returned series, the series made of the cells that are not the sentinel,
  and the rows of a series whose axis is \<open>name\<close>.
\<close>

definition peak_index :: "real list \<Rightarrow> nat" where
  "peak_index row = (case argmax (map abs row) of Inl e \<Rightarrow> 0 | Inr i \<Rightarrow> i)"

definition window_cell :: "nat \<Rightarrow> real list \<Rightarrow> nat \<Rightarrow> real option" where
  "window_cell M row k =
     (if M \<le> peak_index row + k \<and> peak_index row + k < M + length row
      then Some (row ! (peak_index row + k - M)) else None)"

definition window_key :: "string \<Rightarrow> int \<Rightarrow> real \<Rightarrow> int \<Rightarrow> label list" where
  "window_key name peak_time dt offset = [Str name, Micros peak_time, Seconds (dt * real_of_int offset)]"

definition window_rows ::
  "int \<Rightarrow> real \<Rightarrow> string list \<Rightarrow> (real list \<Rightarrow> int) \<Rightarrow> real list list \<Rightarrow> series" where
  "window_rows m dt names peak_time data =
     concat (map (\<lambda>k. concat (map (\<lambda>j.
       case window_cell (nat m) (data ! j) k of
         None \<Rightarrow> []
       | Some v \<Rightarrow> [(window_key (names ! j) (peak_time (data ! j)) dt (int k - m), FloatV v)])
       [0..<length data])) [0..<nat (2 * m + 1)])"

definition rows_of_axis :: "string \<Rightarrow> series \<Rightarrow> series" where
  "rows_of_axis name rows = filter (\<lambda>r. take 1 (fst r) = [Str name]) rows"

text \<open>
  What the code expects of the analyzer of a recording with an accelerometer channel
  \<open>ch\<close>: rows and resultant of one length, at least one sample, one axis name per row,
  the names distinct and none of them \<^verbatim>\<open>Resultant\<close>, a timestamp for every sample, a
  session, and a sampling rate that is not zero.
\<close>

definition accel_ok :: "analyzer \<Rightarrow> accel_channel \<Rightarrow> bool" where
  "accel_ok a ch \<longleftrightarrow>
     map_of (channels a) ''acc'' = Some ch
     \<and> list_all (\<lambda>row. length row = length (accelerationResultant a)) (accelerationData a)
     \<and> accelerationResultant a \<noteq> []
     \<and> length (axis_names ch) = length (accelerationData a)
     \<and> distinct (axis_names ch @ [''Resultant''])
     \<and> length (accelerationResultant a) \<le> length (times ch)
     \<and> sessions (ch_dataset ch) \<noteq> []
     \<and> accelerationFs a \<noteq> 0"

text \<open>
  The weaker condition that the code itself needs: instead of a timestamp for every
  sample, a timestamp at the peak of every row.
\<close>

definition accel_fits :: "analyzer \<Rightarrow> accel_channel \<Rightarrow> bool" where
  "accel_fits a ch \<longleftrightarrow>
     map_of (channels a) ''acc'' = Some ch
     \<and> list_all (\<lambda>row. length row = length (accelerationResultant a)) (accelerationData a)
     \<and> accelerationResultant a \<noteq> []
     \<and> length (axis_names ch) = length (accelerationData a)
     \<and> list_all (\<lambda>row. peak_index (map (\<lambda>x. MPS2_TO_G a * x) row) < length (times ch))
          (accelerationData a @ [accelerationResultant a])
     \<and> sessions (ch_dataset ch) \<noteq> []
     \<and> accelerationFs a \<noteq> 0"

section \<open>Auxiliary facts about the builder\<close>

lemma dict_keys_dict_set:
  "dict_keys (dict_set d k v) =
     (if k \<in> set (dict_keys d) then dict_keys d else dict_keys d @ [k])"
  by (induction d) (auto simp: dict_set_def dict_keys_def split: prod.splits)


















lemma add_psd_params:
  assumes "add_psd w s b win self = Inr self'"
  shows "psd_bins_per_octave self' = b" "psd_window self' = Some win"
    "w = Some x \<Longrightarrow> psd_freq_bin_width self' = Some x \<and> psd_freq_start_octave self' = s"
    "w = None \<Longrightarrow> b = Some bpo \<Longrightarrow>
       psd_freq_bin_width self' =
         Some ((case s of None \<Rightarrow> 1 | Some f \<Rightarrow> f) / of_int (py_int (5 / fstart_breadth bpo)))
       \<and> psd_freq_start_octave self' = Some (case s of None \<Rightarrow> 1 | Some f \<Rightarrow> f)"
  using assms
  by (auto simp: add_psd_def bind_def Let_def split: if_splits option.splits)

lemma add_psd_given_width:
  "add_psd (Some x) s b win self =
     Inr (self\<lparr>metrics_queue := dict_set (metrics_queue self) ''psd'' (),
               psd_freq_bin_width := Some x,
               psd_freq_start_octave := s,
               psd_bins_per_octave := b,
               psd_window := Some win\<rparr>)"
  by (simp add: add_psd_def bind_def)

section \<open>Auxiliary facts about extraction and aggregation\<close>

lemma traverse_map_Inr:
  "(\<And>x. x \<in> set xs \<Longrightarrow> g x = Inr (h x)) \<Longrightarrow> traverse g xs = Inr (map h xs)"
  by (induction xs) auto

lemma traverse_Inr_D:
  "traverse g xs = Inr ys \<Longrightarrow> length ys = length xs \<and> (\<forall>i<length xs. g (xs ! i) = Inr (ys ! i))"
proof (induction xs arbitrary: ys)
  case Nil
  then show ?case by simp
next
  case (Cons x xs)
  then show ?case
    by (auto split: sum.splits simp: nth_Cons split: nat.splits)
qed

lemma traverse_Inr_ex:
  "traverse g xs = Inr ys \<Longrightarrow> x \<in> set xs \<Longrightarrow> \<exists>y. g x = Inr y"
  by (induction xs arbitrary: ys) (auto split: sum.splits)

lemma dict_set_fresh: "k \<notin> set (dict_keys d) \<Longrightarrow> dict_set d k v = d @ [(k, v)]"
  by (simp add: dict_set_def)

lemma dict_set_last: "k \<notin> set (dict_keys d) \<Longrightarrow> dict_set (d @ [(k, u)]) k v = d @ [(k, v)]"
  by (induction d) (auto simp: dict_set_def dict_keys_def)

lemma foldl_dict_set_fresh:
  "distinct (map fst kvs) \<Longrightarrow> set (map fst kvs) \<inter> set (dict_keys d) = {} \<Longrightarrow>
   foldl (\<lambda>d (k, v). dict_set d k v) d kvs = d @ kvs"
proof (induction kvs arbitrary: d)
  case Nil
  then show ?case by simp
next
  case (Cons kv kvs)
  obtain k v where kv: "kv = (k, v)" by (cases kv)
  have fresh: "k \<notin> set (dict_keys d)" using Cons.prems kv by auto
  have "foldl (\<lambda>d (k, v). dict_set d k v) (d @ [(k, v)]) kvs = (d @ [(k, v)]) @ kvs"
    using Cons.prems kv by (intro Cons.IH) (auto simp: dict_keys_def)
  then show ?case using fresh kv by (simp add: dict_set_fresh)
qed

lemma run_queue_shape:
  "run_queue F a ks data = Inr d \<Longrightarrow> distinct ks \<Longrightarrow> set ks \<inter> set (dict_keys data) = {} \<Longrightarrow>
   \<exists>vs. length vs = length ks \<and> d = data @ zip ks vs"
proof (induction ks arbitrary: data)
  case Nil
  then show ?case by simp
next
  case (Cons k ks)
  from Cons.prems(1) obtain f v where f: "dict_get F k = Inr f" and v: "f a = Inr v"
    and rest: "run_queue F a ks (dict_set data k v) = Inr d"
    by (auto simp: bind_def split: sum.splits)
  have fresh: "k \<notin> set (dict_keys data)" using Cons.prems(3) by auto
  have ds: "dict_set data k v = data @ [(k, v)]" using fresh by (rule dict_set_fresh)
  have "\<exists>vs. length vs = length ks \<and> d = (data @ [(k, v)]) @ zip ks vs"
    using rest Cons.prems(2,3) unfolding ds by (intro Cons.IH) (auto simp: dict_keys_def)
  then obtain vs where "length vs = length ks" "d = (data @ [(k, v)]) @ zip ks vs" by blast
  then have "length (v # vs) = length (k # ks) \<and> d = data @ zip (k # ks) (v # vs)" by simp
  then show ?case by blast
qed

lemma foldr_min_const:
  "(\<And>ys. ys \<in> set rest \<Longrightarrow> length ys = L) \<Longrightarrow> foldr (\<lambda>ys m. min (length ys) m) rest L = L"
  by (induction rest) auto

lemma zip_star_uniform:
  assumes "xss \<noteq> []" "\<And>ys. ys \<in> set xss \<Longrightarrow> length ys = L"
  shows "zip_star xss = map (\<lambda>i. map (\<lambda>ys. ys ! i) xss) [0..<L]"
proof -
  obtain xs rest where x: "xss = xs # rest" using assms(1) by (cases xss) auto
  have "length xs = L" using assms(2) x by simp
  moreover have "foldr (\<lambda>ys m. min (length ys) m) rest L = L"
    using assms(2) x by (intro foldr_min_const) simp
  ultimately show ?thesis unfolding zip_star_def x by simp
qed

lemma upt_Suc_shift: "[0..<Suc q] = 0 # map Suc [0..<q]"
  by (simp add: upt_conv_Cons map_Suc_upt del: upt_Suc)

lemma pd_concat_map:
  "pd_concat fs (map E fs) =
     concat (map (\<lambda>f. case E f of None \<Rightarrow> [] | Some s \<Rightarrow> map (\<lambda>(idx, v). (Str f # idx, v)) s) fs)"
proof -
  have "zip fs (map E fs) = map (\<lambda>f. (f, E f)) fs"
    by (induction fs) auto
  then show ?thesis by (simp add: pd_concat_def comp_def)
qed

lemma dict_keys_meta_frame: "dict_keys (meta_frame S T fs) = map Str fs"
  by (simp add: meta_frame_def dict_keys_def comp_def)

lemma map_of_fresh: "k \<notin> set (dict_keys d) \<Longrightarrow> map_of d k = None"
  by (simp add: dict_keys_def map_of_eq_None_iff)

lemma map_of_snoc: "k \<notin> set (dict_keys d) \<Longrightarrow> map_of (d @ [(k, v)]) k = Some v"
  by (simp add: map_add_def map_of_fresh)

lemma unstack_rows_meta:
  "distinct fs \<Longrightarrow> Str ` set fs \<inter> set (dict_keys acc) = {} \<Longrightarrow>
   unstack_rows (meta_rows S T fs) acc = Inr (acc @ meta_frame S T fs)"
proof (induction fs arbitrary: acc)
  case Nil
  then show ?case by (simp add: meta_rows_def meta_frame_def)
next
  case (Cons f fs)
  let ?r1 = "[(Str ''serial number'', S f)]"
  let ?r2 = "[(Str ''serial number'', S f), (Str ''start time'', T f)]"
  have fresh: "Str f \<notin> set (dict_keys acc)" using Cons.prems(2) by auto
  have s1: "dict_set acc (Str f) (dict_set [] (Str ''serial number'') (S f)) = acc @ [(Str f, ?r1)]"
    using fresh by (simp add: dict_set_fresh) (simp add: dict_set_def dict_keys_def)
  have s2: "dict_set (acc @ [(Str f, ?r1)]) (Str f) (dict_set ?r1 (Str ''start time'') (T f))
              = acc @ [(Str f, ?r2)]"
    using fresh by (simp add: dict_set_last) (simp add: dict_set_def dict_keys_def)
  have rec: "unstack_rows (meta_rows S T fs) (acc @ [(Str f, ?r2)])
               = Inr ((acc @ [(Str f, ?r2)]) @ meta_frame S T fs)"
    using Cons.prems by (intro Cons.IH) (auto simp: dict_keys_def)
  have "unstack_rows (meta_rows S T (f # fs)) acc
          = unstack_rows (meta_rows S T fs) (acc @ [(Str f, ?r2)])"
    using fresh by (simp add: meta_rows_def map_of_fresh map_of_snoc s1 s2 del: map_of_append)
  then show ?case using rec by (simp add: meta_frame_def)
qed

lemma set_meta_rows_keys:
  "set (map fst (meta_rows S T fs)) =
     (\<Union>f\<in>set fs. {[Str f, Str ''serial number''], [Str f, Str ''start time'']})"
  by (induction fs) (auto simp: meta_rows_def)

lemma meta_rows_Cons:
  "meta_rows S T (f # fs) =
     ([Str f, Str ''serial number''], S f) # ([Str f, Str ''start time''], T f) # meta_rows S T fs"
  by (simp add: meta_rows_def)

lemma distinct_meta_rows: "distinct (map fst (meta_rows S T fs)) = distinct fs"
proof (induction fs)
  case Nil
  then show ?case by (simp add: meta_rows_def)
next
  case (Cons f fs)
  have "[Str f, Str ''serial number''] \<in> set (map fst (meta_rows S T fs)) \<longleftrightarrow> f \<in> set fs"
    unfolding set_meta_rows_keys by auto
  moreover have "[Str f, Str ''start time''] \<in> set (map fst (meta_rows S T fs)) \<longleftrightarrow> f \<in> set fs"
    unfolding set_meta_rows_keys by auto
  ultimately show ?case using Cons.IH by (simp add: meta_rows_Cons del: set_map)
qed

lemma unstack_meta_rows:
  "unstack (meta_rows S T fs) = (if distinct fs then Inr (meta_frame S T fs) else Inl ValueError)"
  using unstack_rows_meta[of fs "[]" S T]
  by (simp add: unstack_def distinct_meta_rows dict_keys_def)

lemma loc_meta_frame:
  "f \<in> set fs \<Longrightarrow>
   loc (meta_frame S T fs) (Str f) ''serial number'' = Inr (S f) \<and>
   loc (meta_frame S T fs) (Str f) ''start time'' = Inr (T f)"
proof -
  assume "f \<in> set fs"
  then have "map_of (meta_frame S T fs) (Str f)
      = Some [(Str ''serial number'', S f), (Str ''start time'', T f)]"
    by (induction fs) (auto simp: meta_frame_def)
  then show ?thesis by (simp add: loc_def dict_get_def bind_def)
qed

lemma make_meta_shape:
  "make_meta ds = Inr m \<Longrightarrow>
   \<exists>sn st. m = [([Str ''serial number''], IntV sn), ([Str ''start time''], DateTime st)]"
  by (auto simp: make_meta_def bind_def split: sum.splits list.splits)

lemma get_data_shape:
  assumes "distinct ks" "''meta'' \<notin> set ks" "dict_keys (metrics_queue self) = ks"
    and "get_data w self f = Inr d"
  shows "\<exists>sn st vs.
           recording_meta w f =
             Inr [([Str ''serial number''], IntV sn), ([Str ''start time''], DateTime st)]
           \<and> length vs = length ks
           \<and> d = (''meta'', Some [([Str ''serial number''], IntV sn),
                                  ([Str ''start time''], DateTime st)]) # zip ks vs"
proof -
  from assms(4) obtain ds m a where ds: "importFile w f = Inr ds" and m: "make_meta ds = Inr m"
    and rq: "run_queue (funcs w self) a ks [(''meta'', Some m)] = Inr d"
    unfolding get_data_def assms(3) by (auto simp: bind_def Let_def split: sum.splits)
  from make_meta_shape[OF m] obtain sn st where
    mm: "m = [([Str ''serial number''], IntV sn), ([Str ''start time''], DateTime st)]" by blast
  have "\<exists>vs. length vs = length ks \<and> d = [(''meta'', Some m)] @ zip ks vs"
    using rq assms(1,2) by (intro run_queue_shape[of _ a]) (auto simp: dict_keys_def)
  then obtain vs where "length vs = length ks" "d = (''meta'', Some m) # zip ks vs" by auto
  moreover have "recording_meta w f = Inr m" by (simp add: recording_meta_def ds m bind_def)
  ultimately show ?thesis unfolding mm by blast
qed

lemma traverse_map: "traverse g (map h xs) = traverse (\<lambda>x. g (h x)) xs"
  by (induction xs) (simp_all split: sum.splits)

lemma zip_map3:
  "zip (map a xs) (zip (map b xs) (map c xs)) = map (\<lambda>x. (a x, b x, c x)) xs"
  by (induction xs) auto

lemma tagged_files: "x \<in> set (tagged gs E) \<Longrightarrow> fst x \<in> set gs"
  by (auto simp: tagged_def split: option.splits)

lemma pd_concat_tagged:
  "pd_concat gs (map E gs) = map (\<lambda>(f, idx, v). (Str f # idx, v)) (tagged gs E)"
  unfolding pd_concat_map tagged_def
  by (induction gs) (auto split: option.splits)

lemma tidy_of_tagged:
  "tidy_of S T gs E =
     map (\<lambda>(f, idx, v). \<lparr>row_filename = Str f, row_index = idx, row_value = v,
                         serial_number = S f, start_time = T f\<rparr>) (tagged gs E)"
  unfolding tidy_of_def tagged_def
  by (induction gs) (auto split: option.splits)

lemma reformat_concat:
  assumes "set gs \<subseteq> set fs"
  shows "reformat (meta_frame S T fs) (Some (pd_concat gs (map E gs))) = Inr (Some (tidy_of S T gs E))"
proof -
  let ?pre = "tagged gs E"
  let ?df = "map (\<lambda>(f, idx, v). (Str f, idx, v)) ?pre"
  have in_fs: "\<And>x. x \<in> set ?pre \<Longrightarrow> fst x \<in> set fs"
    using tagged_files assms by blast
  have melt: "melt (pd_concat gs (map E gs)) = Inr ?df"
    unfolding pd_concat_tagged melt_def traverse_map
    by (rule traverse_map_Inr) (auto split: prod.splits)
  have ser: "traverse (\<lambda>(f, idx, v). loc (meta_frame S T fs) f ''serial number'') ?df
               = Inr (map (\<lambda>(f, idx, v). S f) ?pre)"
    unfolding traverse_map
    by (rule traverse_map_Inr) (use in_fs loc_meta_frame in \<open>fastforce split: prod.splits\<close>)
  have sta: "traverse (\<lambda>(f, idx, v). loc (meta_frame S T fs) f ''start time'') ?df
               = Inr (map (\<lambda>(f, idx, v). T f) ?pre)"
    unfolding traverse_map
    by (rule traverse_map_Inr) (use in_fs loc_meta_frame in \<open>fastforce split: prod.splits\<close>)
  have "reformat (meta_frame S T fs) (Some (pd_concat gs (map E gs))) =
          Inr (Some (map (\<lambda>((f, idx, v), sn, st).
                   \<lparr>row_filename = f, row_index = idx, row_value = v,
                    serial_number = sn, start_time = st\<rparr>)
                 (zip ?df (zip (map (\<lambda>(f, idx, v). S f) ?pre) (map (\<lambda>(f, idx, v). T f) ?pre)))))"
    unfolding reformat_def by (simp only: option.case melt bind_def sum.case ser sta)
  also have "\<dots> = Inr (Some (tidy_of S T gs E))"
    unfolding zip_map3 tidy_of_tagged by (simp add: case_prod_unfold comp_def)
  finally show ?thesis .
qed

lemma concat_or_none_map:
  "concat_or_none fs (map E fs) =
     (if list_ex (\<lambda>f. E f \<noteq> None) fs then Some (pd_concat fs (map E fs)) else None)"
  by (auto simp: concat_or_none_def list_ex_iff)

lemma reformat_concat_or_none:
  "reformat (meta_frame S T fs) (concat_or_none fs (map E fs)) =
     Inr (if list_ex (\<lambda>f. E f \<noteq> None) fs then Some (tidy_of S T fs E) else None)"
  unfolding concat_or_none_map
  by (simp add: reformat_concat) (simp add: reformat_def)

lemma zip_nth_upt: "length xs = q \<Longrightarrow> zip xs (map F [0..<q]) = map (\<lambda>p. (xs ! p, F p)) [0..<q]"
  by (auto intro!: nth_equalityI)

lemma meta_concat:
  "pd_concat fs (map (\<lambda>f. Some [([Str ''serial number''], S f), ([Str ''start time''], T f)]) fs)
     = meta_rows S T fs"
  unfolding pd_concat_map meta_rows_def by simp

lemma aggregate_data_eq:
  assumes ks: "distinct ks" "''meta'' \<notin> set ks" "dict_keys (metrics_queue self) = ks"
    and fs: "fs \<noteq> []"
    and gd: "\<And>f. f \<in> set fs \<Longrightarrow>
               get_data w self f =
                 Inr ((''meta'', Some [([Str ''serial number''], S f), ([Str ''start time''], T f)])
                      # zip ks (V f))"
    and len: "\<And>f. f \<in> set fs \<Longrightarrow> length (V f) = length ks"
  shows "aggregate_data w self fs =
           (if distinct fs
            then Inr \<lparr>dataframes =
                   (''meta'', Some (MetaTable (meta_frame S T fs)))
                   # map (\<lambda>p. (ks ! p,
                               if list_ex (\<lambda>f. V f ! p \<noteq> None) fs
                               then Some (Tidy (tidy_of S T fs (\<lambda>f. V f ! p)))
                               else None))
                       [0..<length ks]\<rparr>
            else Inl ValueError)"
proof -
  let ?M = "\<lambda>f. [([Str ''serial number''], S f), ([Str ''start time''], T f)]"
  let ?D = "\<lambda>f. (''meta'', Some (?M f)) # zip ks (V f)"
  let ?q = "length ks"
  let ?cols = "map (\<lambda>f. Some (?M f) # V f) fs"
  let ?frame = "meta_frame S T fs"
  let ?out = "\<lambda>p. (ks ! p, if list_ex (\<lambda>f. V f ! p \<noteq> None) fs
                             then Some (Tidy (tidy_of S T fs (\<lambda>f. V f ! p))) else None)"
  have t1: "traverse (get_data w self) fs = Inr (map ?D fs)"
    by (rule traverse_map_Inr) (rule gd)
  have t2: "map dict_values (map ?D fs) = ?cols"
    using len by (simp add: dict_values_def)
  have t3: "zip_star ?cols = map (\<lambda>i. map (\<lambda>ys. ys ! i) ?cols) [0..<Suc ?q]"
    using fs len by (intro zip_star_uniform) auto
  have t4: "map (concat_or_none fs) (zip_star ?cols) =
              concat_or_none fs (map (\<lambda>f. Some (?M f)) fs)
              # map (\<lambda>p. concat_or_none fs (map (\<lambda>f. V f ! p) fs)) [0..<?q]"
    unfolding t3 upt_Suc_shift by (simp add: comp_def)
  have t5: "concat_or_none fs (map (\<lambda>f. Some (?M f)) fs) = Some (meta_rows S T fs)"
    using fs unfolding concat_or_none_map meta_concat
    by (cases fs) simp_all
  have t7: "traverse (\<lambda>(key, df). bind (reformat ?frame df) (\<lambda>t. Inr (key, map_option Tidy t)))
              (zip ks (map (\<lambda>p. concat_or_none fs (map (\<lambda>f. V f ! p) fs)) [0..<?q]))
            = Inr (map ?out [0..<?q])"
    unfolding zip_nth_upt[OF refl] traverse_map
    by (rule traverse_map_Inr) (simp add: reformat_concat_or_none bind_def)
  have keys: "map fst (map ?out [0..<?q]) = ks"
    by (simp add: comp_def map_nth)
  have t8: "foldl (\<lambda>d (key, df). dict_set d key df) [(''meta'', Some (MetaTable ?frame))]
              (map ?out [0..<?q])
            = (''meta'', Some (MetaTable ?frame)) # map ?out [0..<?q]"
    using foldl_dict_set_fresh[of "map ?out [0..<?q]" "[(''meta'', Some (MetaTable ?frame))]"]
      ks(1,2) unfolding keys by (simp add: dict_keys_def)
  note t7' = t7[unfolded bind_def]
  show ?thesis
  proof (cases "distinct fs")
    case True
    show ?thesis
      unfolding aggregate_data_def ks(3) t1 bind_def sum.case Let_def t2 t4 list.case t5 option.case
        unstack_meta_rows
      by (simp only: True if_True t7' t8 sum.case)
  next
    case False
    show ?thesis
      unfolding aggregate_data_def ks(3) t1 bind_def sum.case Let_def t2 t4 list.case t5 option.case
        unstack_meta_rows
      by (simp only: False if_False sum.case)
  qed
qed

lemma first_seen_snoc:
  "first_seen (xs @ [k]) = (if k \<in> set xs then first_seen xs else first_seen xs @ [k])"
  unfolding first_seen_def by simp

lemma set_first_seen: "set (first_seen xs) = set xs"
  by (simp add: first_seen_def)

lemma distinct_first_seen: "distinct (first_seen xs)"
  by (simp add: first_seen_def)

lemma apply_call_keys:
  "apply_call c self = Inr self' \<Longrightarrow>
   dict_keys (metrics_queue self') =
     (if call_kind c \<in> set (dict_keys (metrics_queue self)) then dict_keys (metrics_queue self)
      else dict_keys (metrics_queue self) @ [call_kind c])"
  by (cases c)
     (auto simp: add_psd_def add_pvss_def add_metrics_def add_peaks_def add_vc_curves_def
        bind_def Let_def dict_keys_dict_set split: if_splits option.splits)

lemma apply_calls_keys:
  "apply_calls cs b = Inr self \<Longrightarrow> dict_keys (metrics_queue b) = first_seen pre \<Longrightarrow>
   dict_keys (metrics_queue self) = first_seen (pre @ map call_kind cs)"
proof (induction cs arbitrary: b pre)
  case Nil
  then show ?case by simp
next
  case (Cons c cs)
  from Cons.prems(1) obtain b' where c: "apply_call c b = Inr b'" and rest: "apply_calls cs b' = Inr self"
    by (auto simp: bind_def split: sum.splits)
  have "dict_keys (metrics_queue b') = first_seen (pre @ [call_kind c])"
    using apply_call_keys[OF c] Cons.prems(2) by (simp add: first_seen_snoc set_first_seen)
  from Cons.IH[OF rest this] show ?case by simp
qed

lemma call_kind_not_meta: "''meta'' \<noteq> call_kind c"
  by (cases c) simp_all

lemma built_queue:
  assumes "GetDataBuilder kw = Inr b0" "apply_calls cs b0 = Inr self"
  shows "dict_keys (metrics_queue self) = first_seen (map call_kind cs)"
    and "distinct (dict_keys (metrics_queue self))"
    and "''meta'' \<notin> set (dict_keys (metrics_queue self))"
proof -
  have "dict_keys (metrics_queue b0) = first_seen []"
    using assms(1) by (auto simp: GetDataBuilder_def dict_keys_def first_seen_def split: if_splits)
  from apply_calls_keys[OF assms(2) this]
  show k: "dict_keys (metrics_queue self) = first_seen (map call_kind cs)" by simp
  show "distinct (dict_keys (metrics_queue self))" unfolding k by (rule distinct_first_seen)
  show "''meta'' \<notin> set (dict_keys (metrics_queue self))"
    unfolding k set_first_seen by (auto simp: call_kind_not_meta)
qed

lemma aggregate_data_Nil: "aggregate_data w self [] = Inl ValueError"
  by (simp add: aggregate_data_def bind_def zip_star_def)

lemma map_of_zip_entry:
  assumes "distinct ks" "''meta'' \<notin> set ks" "length vs = length ks" "p < length ks"
  shows "map_of ((''meta'', m) # zip ks vs) (ks ! p) = Some (vs ! p)"
proof -
  have "ks ! p \<noteq> ''meta''" using assms(2,4) by (metis nth_mem)
  moreover have "map_of (zip ks vs) (ks ! p) = Some (vs ! p)"
    using assms by (intro map_of_zip_nth) simp_all
  ultimately show ?thesis by simp
qed

lemma aggregate_data_queue:
  assumes ks: "distinct ks" "''meta'' \<notin> set ks" "dict_keys (metrics_queue self) = ks"
    and fs: "fs \<noteq> []"
    and gd: "\<And>f. f \<in> set fs \<Longrightarrow> \<exists>d. get_data w self f = Inr d"
  shows "\<exists>S T.
           (\<forall>f\<in>set fs. recording_meta w f =
                          Inr [([Str ''serial number''], S f), ([Str ''start time''], T f)])
           \<and> aggregate_data w self fs =
               (if distinct fs
                then Inr \<lparr>dataframes =
                       (''meta'', Some (MetaTable (meta_frame S T fs)))
                       # map (\<lambda>k. (k,
                                   if list_ex (\<lambda>f. recording_entry w self f k \<noteq> None) fs
                                   then Some (Tidy (tidy_of S T fs (\<lambda>f. recording_entry w self f k)))
                                   else None))
                           ks\<rparr>
                else Inl ValueError)"
proof -
  define S where "S = (\<lambda>f. case recording_meta w f of Inr m \<Rightarrow> snd (m ! 0) | Inl e \<Rightarrow> IntV 0)"
  define T where "T = (\<lambda>f. case recording_meta w f of Inr m \<Rightarrow> snd (m ! 1) | Inl e \<Rightarrow> IntV 0)"
  define V where "V = (\<lambda>f. map (recording_entry w self f) ks)"
  let ?M = "\<lambda>f. [([Str ''serial number''], S f), ([Str ''start time''], T f)]"
  have shape: "recording_meta w f = Inr (?M f) \<and>
               get_data w self f = Inr ((''meta'', Some (?M f)) # zip ks (V f))"
    if f: "f \<in> set fs" for f
  proof -
    from gd[OF f] obtain d where d: "get_data w self f = Inr d" by blast
    from get_data_shape[OF ks d] obtain sn st vs where
      rm: "recording_meta w f =
             Inr [([Str ''serial number''], IntV sn), ([Str ''start time''], DateTime st)]"
      and lv: "length vs = length ks"
      and dd: "d = (''meta'', Some [([Str ''serial number''], IntV sn),
                                    ([Str ''start time''], DateTime st)]) # zip ks vs"
      by blast
    have S: "S f = IntV sn" and T: "T f = DateTime st" by (simp_all add: S_def T_def rm)
    have "V f = vs"
    proof (rule nth_equalityI)
      show "length (V f) = length vs" by (simp add: V_def lv)
    next
      fix p assume "p < length (V f)"
      then have p: "p < length ks" by (simp add: V_def)
      have "recording_entry w self f (ks ! p) = vs ! p"
        unfolding recording_entry_def d dd using map_of_zip_entry[OF ks(1,2) lv p] by simp
      then show "V f ! p = vs ! p" using p by (simp add: V_def)
    qed
    then show ?thesis using rm d dd S T by simp
  qed
  have len: "\<And>f. f \<in> set fs \<Longrightarrow> length (V f) = length ks" by (simp add: V_def)
  have conv: "map (\<lambda>p. (ks ! p, if list_ex (\<lambda>f. V f ! p \<noteq> None) fs
                               then Some (Tidy (tidy_of S T fs (\<lambda>f. V f ! p))) else None))
                [0..<length ks]
              = map (\<lambda>k. (k, if list_ex (\<lambda>f. recording_entry w self f k \<noteq> None) fs
                             then Some (Tidy (tidy_of S T fs (\<lambda>f. recording_entry w self f k)))
                             else None)) ks"
    by (rule nth_equalityI) (simp_all add: V_def)
  have "aggregate_data w self fs =
          (if distinct fs
           then Inr \<lparr>dataframes =
                  (''meta'', Some (MetaTable (meta_frame S T fs)))
                  # map (\<lambda>p. (ks ! p, if list_ex (\<lambda>f. V f ! p \<noteq> None) fs
                               then Some (Tidy (tidy_of S T fs (\<lambda>f. V f ! p))) else None))
                      [0..<length ks]\<rparr>
           else Inl ValueError)"
    using shape len by (intro aggregate_data_eq[OF ks fs]) simp_all
  then show ?thesis using shape unfolding conv by blast
qed

lemma aggregate_data_Inr_D:
  assumes ks: "distinct ks" "''meta'' \<notin> set ks" "dict_keys (metrics_queue self) = ks"
    and agg: "aggregate_data w self fs = Inr out"
  shows "\<exists>S T. fs \<noteq> [] \<and> distinct fs
           \<and> (\<forall>f\<in>set fs. recording_meta w f =
                          Inr [([Str ''serial number''], S f), ([Str ''start time''], T f)])
           \<and> dataframes out =
               (''meta'', Some (MetaTable (meta_frame S T fs)))
               # map (\<lambda>k. (k,
                           if list_ex (\<lambda>f. recording_entry w self f k \<noteq> None) fs
                           then Some (Tidy (tidy_of S T fs (\<lambda>f. recording_entry w self f k)))
                           else None))
                   ks"
proof -
  have fs: "fs \<noteq> []" using agg aggregate_data_Nil by auto
  from agg obtain datas where "traverse (get_data w self) fs = Inr datas"
    unfolding aggregate_data_def by (auto simp: bind_def split: sum.splits)
  then have gd: "\<And>f. f \<in> set fs \<Longrightarrow> \<exists>d. get_data w self f = Inr d"
    by (rule traverse_Inr_ex)
  from aggregate_data_queue[OF ks fs gd] obtain S T where
    m: "\<forall>f\<in>set fs. recording_meta w f =
                      Inr [([Str ''serial number''], S f), ([Str ''start time''], T f)]"
    and e: "aggregate_data w self fs =
               (if distinct fs
                then Inr \<lparr>dataframes =
                       (''meta'', Some (MetaTable (meta_frame S T fs)))
                       # map (\<lambda>k. (k,
                                   if list_ex (\<lambda>f. recording_entry w self f k \<noteq> None) fs
                                   then Some (Tidy (tidy_of S T fs (\<lambda>f. recording_entry w self f k)))
                                   else None))
                           ks\<rparr>
                else Inl ValueError)"
    by blast
  have d: "distinct fs" using agg e by (auto split: if_splits)
  have "dataframes out =
               (''meta'', Some (MetaTable (meta_frame S T fs)))
               # map (\<lambda>k. (k,
                           if list_ex (\<lambda>f. recording_entry w self f k \<noteq> None) fs
                           then Some (Tidy (tidy_of S T fs (\<lambda>f. recording_entry w self f k)))
                           else None))
                   ks"
    using agg e d by auto
  then show ?thesis using fs d m by blast
qed

lemma map_of_map_key: "k \<in> set ks \<Longrightarrow> map_of (map (\<lambda>k. (k, G k)) ks) k = Some (G k)"
  by (induction ks) auto

lemma map_of_map_key_D: "map_of (map (\<lambda>k. (k, G k)) ks) k = Some v \<Longrightarrow> k \<in> set ks \<and> v = G k"
  by (induction ks) (auto split: if_splits)

lemma tidy_of_proj:
  "map (\<lambda>r. (row_filename r, row_index r, row_value r)) (tidy_of S T fs E) =
     concat (map (\<lambda>f. case E f of None \<Rightarrow> [] | Some s \<Rightarrow> map (\<lambda>(idx, v). (Str f, idx, v)) s) fs)"
  unfolding tidy_of_def
  by (induction fs) (auto split: option.splits)

lemma length_tidy_of:
  "length (tidy_of S T fs E) =
     sum_list (map (\<lambda>f. case E f of None \<Rightarrow> 0 | Some s \<Rightarrow> length s) fs)"
  unfolding tidy_of_def
  by (induction fs) (auto split: option.splits)

lemma tidy_of_joined:
  "r \<in> set (tidy_of S T fs E) \<Longrightarrow>
   \<exists>f\<in>set fs. row_filename r = Str f \<and> serial_number r = S f \<and> start_time r = T f"
  unfolding tidy_of_def by (auto split: option.splits)

lemma meta_value_of:
  "recording_meta w f = Inr [([Str ''serial number''], a), ([Str ''start time''], b)] \<Longrightarrow>
   meta_value w f ''serial number'' = Some a \<and> meta_value w f ''start time'' = Some b"
  by (simp add: meta_value_def)

lemma list_all_None_iff: "list_all (\<lambda>f. E f = None) fs \<longleftrightarrow> \<not> list_ex (\<lambda>f. E f \<noteq> None) fs"
  by (simp add: list_all_iff list_ex_iff)

section \<open>Auxiliary facts about the peak windows\<close>

lemma argmax_from_spec:
  "best < k \<Longrightarrow> k = length pre \<Longrightarrow> pre ! best = bv \<Longrightarrow> (\<forall>j<k. pre ! j \<le> bv) \<Longrightarrow>
   argmax_from xs k best bv < k + length xs \<and>
   (\<forall>j < k + length xs. (pre @ xs) ! j \<le> (pre @ xs) ! (argmax_from xs k best bv))"
proof (induction xs arbitrary: k best bv pre)
  case Nil
  then show ?case by simp
next
  case (Cons x xs)
  show ?case
  proof (cases "bv < x")
    case True
    have "argmax_from xs (Suc k) k x < Suc k + length xs \<and>
          (\<forall>j < Suc k + length xs. ((pre @ [x]) @ xs) ! j \<le> ((pre @ [x]) @ xs) ! (argmax_from xs (Suc k) k x))"
    proof (rule Cons.IH)
      show "k < Suc k" by simp
      show "Suc k = length (pre @ [x])" using Cons.prems by simp
      show "(pre @ [x]) ! k = x" using Cons.prems by simp
      show "\<forall>j<Suc k. (pre @ [x]) ! j \<le> x"
        using Cons.prems True by (auto simp: nth_append less_Suc_eq)
    qed
    then show ?thesis using True by simp
  next
    case False
    have "argmax_from xs (Suc k) best bv < Suc k + length xs \<and>
          (\<forall>j < Suc k + length xs. ((pre @ [x]) @ xs) ! j \<le> ((pre @ [x]) @ xs) ! (argmax_from xs (Suc k) best bv))"
    proof (rule Cons.IH)
      show "best < Suc k" using Cons.prems by simp
      show "Suc k = length (pre @ [x])" using Cons.prems by simp
      show "(pre @ [x]) ! best = bv" using Cons.prems by (simp add: nth_append)
      show "\<forall>j<Suc k. (pre @ [x]) ! j \<le> bv"
        using Cons.prems False by (auto simp: nth_append less_Suc_eq)
    qed
    then show ?thesis using False by simp
  qed
qed

lemma argmax_spec:
  assumes "xs \<noteq> []"
  shows "\<exists>i. argmax xs = Inr i \<and> i < length xs \<and> (\<forall>j<length xs. xs ! j \<le> xs ! i)"
proof -
  obtain x rest where xs: "xs = x # rest" using assms by (cases xs) auto
  have "argmax_from rest 1 0 x < 1 + length rest \<and>
        (\<forall>j < 1 + length rest. ([x] @ rest) ! j \<le> ([x] @ rest) ! (argmax_from rest 1 0 x))"
    by (rule argmax_from_spec) simp_all
  then show ?thesis unfolding xs argmax_def by simp
qed

lemma norm_index_dest_start:
  "norm_index (- int M - 1 - int i) (2 * M + 1) = M - i"
  by (simp add: norm_index_def) linarith

lemma norm_index_dest_stop:
  "i < n \<Longrightarrow> norm_index (int M - (int i - int n)) (2 * M + 1) = min (2 * M + 1) (M + n - i)"
  by (simp add: norm_index_def) linarith

lemma norm_index_src_start:
  "i < n \<Longrightarrow> norm_index (int i - int n - int M) n = i - M"
  by (simp add: norm_index_def) linarith

lemma norm_index_src_stop:
  "norm_index (int i + int M + 1) n = min n (i + M + 1)"
  by (simp add: norm_index_def) linarith

lemma fill_length:
  assumes "length vs = len" "sd + len \<le> W"
  shows "length (take sd (replicate W x) @ vs @ drop (sd + len) (replicate W x)) = W"
  using assms by simp

lemma fill_nth:
  assumes "length vs = len" "sd + len \<le> W" "k < W"
  shows "(take sd (replicate W x) @ vs @ drop (sd + len) (replicate W x)) ! k =
           (if sd \<le> k \<and> k < sd + len then vs ! (k - sd) else x)"
proof -
  have l1: "length (take sd (replicate W x)) = sd" using assms by simp
  consider "k < sd" | "sd \<le> k" "k < sd + len" | "sd + len \<le> k" by linarith
  then show ?thesis
  proof cases
    case 1
    then show ?thesis using assms by (simp add: nth_append)
  next
    case 2
    then have "\<not> k < sd" "k - sd < len" by linarith+
    then show ?thesis using assms 2 by (simp add: nth_append)
  next
    case 3
    then have "\<not> k < sd" "\<not> k - sd < len" by linarith+
    then show ?thesis using assms 3 by (simp add: nth_append)
  qed
qed

lemma peak_window_column_eq:
  assumes n: "length row = n" and i: "i < n"
  shows "peak_window_column (int M) n row i =
           Inr (map (\<lambda>k. if M \<le> i + k \<and> i + k < M + n then Some (row ! (i + k - M)) else None)
                  [0..<2 * M + 1])"
proof -
  define W where "W = 2 * M + 1"
  define sd where "sd = M - i"
  define len where "len = min n (i + M + 1) - (i - M)"
  define vs where "vs = take len (drop (i - M) (map Some row))"
  have Wn: "nat (2 * int M + 1) = W" by (simp add: W_def)
  have src: "py_slice (map Some row) (int i - int n - int M) (int i + int M + 1) = vs"
    using i n by (simp add: py_slice_def norm_index_src_start norm_index_src_stop Let_def
        vs_def len_def)
  have lvs: "length vs = len"
    unfolding vs_def len_def using i n by simp
  have d: "min W (M + n - i) - sd = len"
    unfolding W_def sd_def len_def using i by linarith
  have fit: "sd + len \<le> W"
    unfolding W_def sd_def len_def using i by linarith
  have ns: "norm_index (- int M - 1 - int i) W = sd"
    unfolding W_def sd_def by (rule norm_index_dest_start)
  have ne: "norm_index (int M - (int i - int n)) W = min W (M + n - i)"
    unfolding W_def by (rule norm_index_dest_stop[OF i])
  have set: "py_set_slice (replicate W None) (- int M - 1 - int i) (int M - (int i - int n)) vs
               = Inr (take sd (replicate W None) @ vs @ drop (sd + len) (replicate W None))"
    unfolding py_set_slice_def Let_def length_replicate ns ne d using lvs by simp
  have "take sd (replicate W None) @ vs @ drop (sd + len) (replicate W None)
        = map (\<lambda>k. if M \<le> i + k \<and> i + k < M + n then Some (row ! (i + k - M)) else None)
            [0..<W]" (is "?l = ?r")
  proof (rule nth_equalityI)
    show "length ?l = length ?r" using fill_length[OF lvs fit] by simp
  next
    fix k assume "k < length ?l"
    then have k: "k < W" using fill_length[OF lvs fit] by simp
    have r: "?r ! k = (if M \<le> i + k \<and> i + k < M + n then Some (row ! (i + k - M)) else None)"
      using k by simp
    have l: "?l ! k = (if sd \<le> k \<and> k < sd + len then vs ! (k - sd) else None)"
      by (rule fill_nth[OF lvs fit k])
    have c: "(sd \<le> k \<and> k < sd + len) \<longleftrightarrow> (M \<le> i + k \<and> i + k < M + n)"
      using k i unfolding W_def sd_def len_def by linarith
    have v: "vs ! (k - sd) = Some (row ! (i + k - M))" if "sd \<le> k" "k < sd + len"
    proof -
      have a: "k - sd < len" using that by linarith
      have b: "i - M + (k - sd) = i + k - M" using that unfolding sd_def by linarith
      have e: "i + k - M < n" using that c by linarith
      show ?thesis unfolding vs_def using a b e n by (simp add: nth_take)
    qed
    show "?l ! k = ?r ! k" unfolding l r using c v by auto
  qed
  then show ?thesis
    unfolding peak_window_column_def Let_def Wn
    using src set by (simp add: algebra_simps W_def)
qed

lemma peak_index_spec:
  assumes "row \<noteq> []"
  shows "argmax (map abs row) = Inr (peak_index row)"
    and "peak_index row < length row"
    and "\<And>k. k < length row \<Longrightarrow> \<bar>row ! k\<bar> \<le> \<bar>row ! peak_index row\<bar>"
proof -
  from argmax_spec[of "map abs row"] assms obtain i where
    i: "argmax (map abs row) = Inr i" "i < length row"
       "\<forall>j<length row. map abs row ! j \<le> map abs row ! i"
    by auto
  have p: "peak_index row = i" by (simp add: peak_index_def i)
  show "argmax (map abs row) = Inr (peak_index row)" using i p by simp
  show "peak_index row < length row" using i p by simp
  show "\<And>k. k < length row \<Longrightarrow> \<bar>row ! k\<bar> \<le> \<bar>row ! peak_index row\<bar>"
    using i p by auto
qed

lemma peak_window_data_eq:
  assumes m: "0 \<le> m" and rows: "\<And>row. row \<in> set data \<Longrightarrow> length row = n" and n: "0 < n"
  shows "peak_window_data data n m =
           Inr (map peak_index data,
                map (\<lambda>row. map (window_cell (nat m) row) [0..<2 * nat m + 1]) data)"
proof -
  have ne: "\<And>row. row \<in> set data \<Longrightarrow> row \<noteq> []" using rows n by fastforce
  have am: "traverse argmax (map (map abs) data) = Inr (map peak_index data)"
    unfolding traverse_map
    by (rule traverse_map_Inr) (use ne peak_index_spec(1) in blast)
  have z: "zip data (map peak_index data) = map (\<lambda>row. (row, peak_index row)) data"
    by (induction data) auto
  have col: "peak_window_column m n row (peak_index row)
               = Inr (map (window_cell (nat m) row) [0..<2 * nat m + 1])"
    if "row \<in> set data" for row
  proof -
    have l: "length row = n" using that rows by simp
    have i: "peak_index row < n" using peak_index_spec(2)[OF ne[OF that]] l by simp
    have "peak_window_column (int (nat m)) n row (peak_index row)
            = Inr (map (\<lambda>k. if nat m \<le> peak_index row + k \<and> peak_index row + k < nat m + n
                             then Some (row ! (peak_index row + k - nat m)) else None)
                     [0..<2 * nat m + 1])"
      by (rule peak_window_column_eq[OF l i])
    then show ?thesis using m l by (simp add: window_cell_def[abs_def])
  qed
  have cols: "traverse (\<lambda>(row, i). peak_window_column m n row i) (zip data (map peak_index data))
                = Inr (map (\<lambda>row. map (window_cell (nat m) row) [0..<2 * nat m + 1]) data)"
    unfolding z traverse_map
    by (rule traverse_map_Inr) (simp add: col)
  show ?thesis
    unfolding peak_window_data_def using m by (simp add: am cols bind_def)
qed

lemma zip3_index:
  assumes "length ys = length xs" "length zs = length xs"
  shows "zip xs (zip ys zs) = map (\<lambda>j. (xs ! j, ys ! j, zs ! j)) [0..<length xs]"
  using assms by (auto intro!: nth_equalityI)

lemma stack_windows_index:
  assumes "length pt = length names" "length cols = length names"
  shows "stack_windows m dt names pt cols =
           concat (map (\<lambda>k. concat (map (\<lambda>j.
             case cols ! j ! k of
               None \<Rightarrow> []
             | Some v \<Rightarrow> [(window_key (names ! j) (pt ! j) dt (int k - m), FloatV v)])
             [0..<length names])) [0..<nat (2 * m + 1)])"
  unfolding stack_windows_def zip3_index[OF assms] window_key_def
  by (simp add: comp_def)

lemma accel_data_ok:
  assumes "accel_fits a ch"
  shows "accel_data a =
           Inr (map (map (\<lambda>x. MPS2_TO_G a * x)) (accelerationData a @ [accelerationResultant a]))"
  using assms by (simp add: accel_fits_def accel_data_def)

lemma accel_data_rows:
  assumes "accel_fits a ch"
    and "row \<in> set (map (map (\<lambda>x. MPS2_TO_G a * x)) (accelerationData a @ [accelerationResultant a]))"
  shows "length row = length (accelerationResultant a)"
  using assms by (auto simp: accel_fits_def list_all_iff)

lemma accel_data_peaks:
  assumes "accel_fits a ch"
    and "row \<in> set (map (map (\<lambda>x. MPS2_TO_G a * x)) (accelerationData a @ [accelerationResultant a]))"
  shows "peak_index row < length (times ch)"
  using assms by (auto simp: accel_fits_def list_all_iff)

lemma accel_ok_fits:
  assumes "accel_ok a ch"
  shows "accel_fits a ch"
proof -
  have p: "peak_index (map (\<lambda>x. MPS2_TO_G a * x) row) < length (times ch)"
    if "row \<in> set (accelerationData a @ [accelerationResultant a])" for row
  proof -
    have l: "length row = length (accelerationResultant a)"
      using that assms by (auto simp: accel_ok_def list_all_iff)
    then have "map (\<lambda>x. MPS2_TO_G a * x) row \<noteq> []"
      using assms by (auto simp: accel_ok_def)
    then have "peak_index (map (\<lambda>x. MPS2_TO_G a * x) row) < length (map (\<lambda>x. MPS2_TO_G a * x) row)"
      by (rule peak_index_spec(2))
    then show ?thesis using l assms by (simp add: accel_ok_def)
  qed
  then have "list_all (\<lambda>row. peak_index (map (\<lambda>x. MPS2_TO_G a * x) row) < length (times ch))
          (accelerationData a @ [accelerationResultant a])"
    unfolding list_all_iff by blast
  then show ?thesis using assms unfolding accel_ok_def accel_fits_def by blast
qed

lemma make_peak_windows_eq:
  assumes m: "0 \<le> m" and ok: "accel_fits a ch"
    and data: "data = map (map (\<lambda>x. MPS2_TO_G a * x)) (accelerationData a @ [accelerationResultant a])"
  shows "make_peak_windows (Some m) a =
           Inr (Some (stack_windows m (1 / accelerationFs a) (axis_names ch @ [''Resultant''])
                  (map (\<lambda>row. times ch ! peak_index row - firstTime (hd (sessions (ch_dataset ch)))) data)
                  (map (\<lambda>row. map (window_cell (nat m) row) [0..<2 * nat m + 1]) data)))"
proof -
  let ?n = "length (accelerationResultant a)"
  let ?t = "map (\<lambda>x. x - firstTime (hd (sessions (ch_dataset ch)))) (times ch)"
  have ch: "map_of (channels a) ''acc'' = Some ch" using ok by (simp add: accel_fits_def)
  have ad: "accel_data a = Inr data" unfolding data by (rule accel_data_ok[OF ok])
  have rows: "\<And>row. row \<in> set data \<Longrightarrow> length row = ?n"
    unfolding data by (rule accel_data_rows[OF ok])
  have n: "0 < ?n" using ok by (simp add: accel_fits_def)
  have pt: "peak_times ch = Inr ?t"
    using ok by (cases "sessions (ch_dataset ch)") (simp_all add: accel_fits_def peak_times_def)
  have fs: "accelerationFs a \<noteq> 0" using ok by (simp add: accel_fits_def)
  have pw: "peak_window_data data ?n m =
           Inr (map peak_index data,
                map (\<lambda>row. map (window_cell (nat m) row) [0..<2 * nat m + 1]) data)"
    by (rule peak_window_data_eq[OF m rows n])
  have pk: "traverse (\<lambda>i. if i < length ?t then Inr (?t ! i) else Inl IndexError) (map peak_index data)
              = Inr (map (\<lambda>row. times ch ! peak_index row - firstTime (hd (sessions (ch_dataset ch)))) data)"
    unfolding traverse_map
  proof (rule traverse_map_Inr)
    fix row assume r: "row \<in> set data"
    then have "peak_index row < length (times ch)"
      unfolding data by (rule accel_data_peaks[OF ok])
    then show "(if peak_index row < length ?t then Inr (?t ! peak_index row) else Inl IndexError)
                 = Inr (times ch ! peak_index row - firstTime (hd (sessions (ch_dataset ch))))"
      by simp
  qed
  have ln: "length (axis_names ch) + 1 = length data"
    using ok unfolding data by (simp add: accel_fits_def)
  show ?thesis
    unfolding make_peak_windows_def ch option.case ad bind_def sum.case pt
    by (simp only: fs if_False pw pk sum.case prod.case ln simp_thms if_False)
qed

lemma concat_single:
  assumes "j < C" "\<And>j'. j' < C \<Longrightarrow> j' \<noteq> j \<Longrightarrow> g j' = []"
  shows "concat (map g [0..<C]) = g j"
  using assms
proof (induction C)
  case 0
  then show ?case by simp
next
  case (Suc C)
  show ?case
  proof (cases "j = C")
    case True
    have "concat (map g [0..<C]) = []" using Suc.prems(2) True by auto
    then show ?thesis using True by simp
  next
    case False
    then have "concat (map g [0..<C]) = g j" using Suc by auto
    moreover have "g C = []" using Suc.prems False by auto
    ultimately show ?thesis by simp
  qed
qed

lemma length_concat_cells:
  "length (concat (map (\<lambda>k. case c k of None \<Rightarrow> [] | Some v \<Rightarrow> [f k v]) ks))
     = length (filter (\<lambda>k. c k \<noteq> None) ks)"
  by (induction ks) (auto split: option.splits)

lemma count_in_range_gen:
  "length (filter (\<lambda>k. M \<le> i + k \<and> i + k < M + n) [0..<W]) = min W (M + n - i) - (M - i)"
proof (induction W)
  case 0
  then show ?case by simp
next
  case (Suc W)
  have "length (filter (\<lambda>k. M \<le> i + k \<and> i + k < M + n) [0..<Suc W])
          = min W (M + n - i) - (M - i) + (if M \<le> i + W \<and> i + W < M + n then 1 else 0)"
    using Suc.IH by simp
  also have "\<dots> = min (Suc W) (M + n - i) - (M - i)"
    by (cases "M \<le> i + W \<and> i + W < M + n") (simp_all, linarith+)
  finally show ?case .
qed

lemma count_in_range:
  assumes "i < n"
  shows "length (filter (\<lambda>k. M \<le> i + k \<and> i + k < M + n) [0..<2 * M + 1])
           = min n (i + M + 1) - (i - M)"
proof -
  have "min (2 * M + 1) (M + n - i) - (M - i) = min n (i + M + 1) - (i - M)"
    using assms by linarith
  then show ?thesis unfolding count_in_range_gen .
qed

lemma make_peak_windows_rows:
  assumes m: "0 \<le> m" and ok: "accel_fits a ch"
    and data: "data = map (map (\<lambda>x. MPS2_TO_G a * x)) (accelerationData a @ [accelerationResultant a])"
  shows "make_peak_windows (Some m) a =
           Inr (Some (window_rows m (1 / accelerationFs a) (axis_names ch @ [''Resultant''])
                  (\<lambda>row. times ch ! peak_index row - firstTime (hd (sessions (ch_dataset ch))))
                  data))"
proof -
  let ?names = "axis_names ch @ [''Resultant'']"
  let ?pt = "\<lambda>row. times ch ! peak_index row - firstTime (hd (sessions (ch_dataset ch)))"
  let ?cols = "map (\<lambda>row. map (window_cell (nat m) row) [0..<2 * nat m + 1]) data"
  have ln: "length ?names = length data" using ok unfolding data by (simp add: accel_fits_def)
  have W: "nat (2 * m + 1) = 2 * nat m + 1" using m by linarith
  have "stack_windows m (1 / accelerationFs a) ?names (map ?pt data) ?cols
          = concat (map (\<lambda>k. concat (map (\<lambda>j.
             case ?cols ! j ! k of
               None \<Rightarrow> []
             | Some v \<Rightarrow> [(window_key (?names ! j) (map ?pt data ! j) (1 / accelerationFs a)
                              (int k - m), FloatV v)])
             [0..<length ?names])) [0..<nat (2 * m + 1)])"
    by (rule stack_windows_index) (simp_all add: ln[symmetric])
  also have "\<dots> = window_rows m (1 / accelerationFs a) ?names ?pt data"
    unfolding window_rows_def ln W
    by (intro arg_cong[where f = concat] map_cong refl) (simp del: upt_Suc split: option.splits)
  finally show ?thesis
    using make_peak_windows_eq[OF m ok data] by simp
qed

lemma window_rows_mem:
  "r \<in> set (window_rows m dt names pt data) \<longleftrightarrow>
     (\<exists>k<nat (2 * m + 1). \<exists>j<length data. \<exists>v.
        window_cell (nat m) (data ! j) k = Some v
        \<and> r = (window_key (names ! j) (pt (data ! j)) dt (int k - m), FloatV v))"
proof
  assume "r \<in> set (window_rows m dt names pt data)"
  then obtain k j where kj: "k < nat (2 * m + 1)" "j < length data"
    and r: "r \<in> set (case window_cell (nat m) (data ! j) k of
                         None \<Rightarrow> []
                       | Some v \<Rightarrow> [(window_key (names ! j) (pt (data ! j)) dt (int k - m), FloatV v)])"
    unfolding window_rows_def by auto
  from r obtain v where "window_cell (nat m) (data ! j) k = Some v"
    "r = (window_key (names ! j) (pt (data ! j)) dt (int k - m), FloatV v)"
    by (cases "window_cell (nat m) (data ! j) k") auto
  then show "\<exists>k<nat (2 * m + 1). \<exists>j<length data. \<exists>v.
        window_cell (nat m) (data ! j) k = Some v
        \<and> r = (window_key (names ! j) (pt (data ! j)) dt (int k - m), FloatV v)"
    using kj by blast
next
  assume "\<exists>k<nat (2 * m + 1). \<exists>j<length data. \<exists>v.
        window_cell (nat m) (data ! j) k = Some v
        \<and> r = (window_key (names ! j) (pt (data ! j)) dt (int k - m), FloatV v)"
  then obtain k j v where kj: "k < nat (2 * m + 1)" "j < length data"
    and c: "window_cell (nat m) (data ! j) k = Some v"
    and r: "r = (window_key (names ! j) (pt (data ! j)) dt (int k - m), FloatV v)"
    by blast
  define g where "g = (\<lambda>k j. case window_cell (nat m) (data ! j) k of
                         None \<Rightarrow> []
                       | Some v \<Rightarrow> [(window_key (names ! j) (pt (data ! j)) dt (int k - m), FloatV v)])"
  have "r \<in> set (g k j)"
    using c r by (simp add: g_def)
  then have "r \<in> set (concat (map (g k) [0..<length data]))"
    using kj(2) by auto
  then have "r \<in> set (concat (map (\<lambda>k. concat (map (g k) [0..<length data])) [0..<nat (2 * m + 1)]))"
    using kj(1) by auto
  then show "r \<in> set (window_rows m dt names pt data)"
    unfolding window_rows_def g_def .
qed

lemma window_rows_axis:
  assumes d: "distinct names" and l: "length names = length data" and j: "j < length data"
  shows "rows_of_axis (names ! j) (window_rows m dt names pt data) =
           concat (map (\<lambda>k. case window_cell (nat m) (data ! j) k of
                               None \<Rightarrow> []
                             | Some v \<Rightarrow> [(window_key (names ! j) (pt (data ! j)) dt (int k - m),
                                          FloatV v)])
                     [0..<nat (2 * m + 1)])"
proof -
  let ?g = "\<lambda>k j'. case window_cell (nat m) (data ! j') k of
                      None \<Rightarrow> []
                    | Some v \<Rightarrow> [(window_key (names ! j') (pt (data ! j')) dt (int k - m), FloatV v)]"
  let ?P = "\<lambda>r :: label list \<times> pyval. take 1 (fst r) = [Str (names ! j)]"
  have f: "concat (map (\<lambda>j'. filter ?P (?g k j')) [0..<length data]) = ?g k j" for k
  proof -
    have "concat (map (\<lambda>j'. filter ?P (?g k j')) [0..<length data]) = filter ?P (?g k j)"
    proof (rule concat_single[OF j])
      fix j' assume "j' < length data" "j' \<noteq> j"
      then have "names ! j' \<noteq> names ! j" using d l j by (simp add: nth_eq_iff_index_eq)
      then show "filter ?P (?g k j') = []"
        by (simp add: window_key_def split: option.splits)
    qed
    also have "\<dots> = ?g k j" by (simp add: window_key_def split: option.splits)
    finally show ?thesis .
  qed
  show ?thesis
    unfolding rows_of_axis_def window_rows_def filter_concat map_map comp_def f ..
qed

lemma window_rows_axis_length:
  assumes "0 \<le> m" "distinct names" "length names = length data" "j < length data"
    and "peak_index (data ! j) < length (data ! j)"
  shows "length (rows_of_axis (names ! j) (window_rows m dt names pt data)) =
           min (length (data ! j)) (peak_index (data ! j) + nat m + 1) - (peak_index (data ! j) - nat m)"
proof -
  have W: "nat (2 * m + 1) = 2 * nat m + 1" using assms(1) by linarith
  have c: "(window_cell (nat m) (data ! j) k \<noteq> None) =
        (nat m \<le> peak_index (data ! j) + k \<and> peak_index (data ! j) + k < nat m + length (data ! j))" for k
    by (simp add: window_cell_def)
  show ?thesis
    unfolding window_rows_axis[OF assms(2,3,4)] length_concat_cells c W
    by (rule count_in_range[OF assms(5)])
qed

lemma argmax_Inr_nonempty: "argmax xs = Inr i \<Longrightarrow> xs \<noteq> []"
  by (cases xs) (simp_all add: argmax_def)

lemma peak_index_of_argmax: "argmax (map abs row) = Inr i \<Longrightarrow> peak_index row = i"
  by (simp add: peak_index_def)

lemma peak_window_data_Inr_D:
  assumes "peak_window_data data n m = Inr (i_max, cols)"
  shows "0 \<le> m" "traverse argmax (map (map abs) data) = Inr i_max"
proof -
  have a: "\<not> 2 * m + 1 < 0"
    using assms by (auto simp: peak_window_data_def split: if_splits)
  then show "0 \<le> m" by linarith
  from assms a show "traverse argmax (map (map abs) data) = Inr i_max"
    by (auto simp: peak_window_data_def bind_def split: sum.splits)
qed

lemma make_peak_windows_Inr_D:
  assumes "make_peak_windows margin_len a = Inr (Some rows)"
  shows "\<exists>ch m data t i_max cols peak_t.
           map_of (channels a) ''acc'' = Some ch
         \<and> accel_data a = Inr data
         \<and> margin_len = Some m
         \<and> peak_times ch = Inr t
         \<and> accelerationFs a \<noteq> 0
         \<and> peak_window_data data (length (accelerationResultant a)) m = Inr (i_max, cols)
         \<and> traverse (\<lambda>i. if i < length t then Inr (t ! i) else Inl IndexError) i_max = Inr peak_t
         \<and> length (axis_names ch) + 1 = length data"
proof -
  obtain ch where ch: "map_of (channels a) ''acc'' = Some ch"
    using assms by (cases "map_of (channels a) ''acc''") (simp_all add: make_peak_windows_def)
  obtain data where data: "accel_data a = Inr data"
    using assms ch by (cases "accel_data a") (simp_all add: make_peak_windows_def bind_def)
  obtain m where m: "margin_len = Some m"
    using assms ch data by (cases margin_len) (simp_all add: make_peak_windows_def bind_def)
  obtain t where t: "peak_times ch = Inr t"
    using assms ch data m by (cases "peak_times ch") (simp_all add: make_peak_windows_def bind_def)
  have fs: "accelerationFs a \<noteq> 0"
    using assms ch data m t by (auto simp: make_peak_windows_def bind_def)
  obtain i_max cols where
    pw: "peak_window_data data (length (accelerationResultant a)) m = Inr (i_max, cols)"
    using assms ch data m t fs
    by (cases "peak_window_data data (length (accelerationResultant a)) m")
       (auto simp: make_peak_windows_def bind_def)
  obtain peak_t where
    pk: "traverse (\<lambda>i. if i < length t then Inr (t ! i) else Inl IndexError) i_max = Inr peak_t"
    using assms ch data m t fs pw
    by (cases "traverse (\<lambda>i. if i < length t then Inr (t ! i) else Inl IndexError) i_max")
       (auto simp: make_peak_windows_def bind_def)
  have ln: "length (axis_names ch) + 1 = length data"
    using assms ch data m t fs pw pk
    by (auto simp: make_peak_windows_def bind_def split: if_splits)
  show ?thesis
    using ch data m t fs pw pk ln by blast
qed

lemma make_peak_windows_success:
  assumes "make_peak_windows margin_len a = Inr (Some rows)"
  shows "\<exists>ch m. margin_len = Some m \<and> 0 \<le> m \<and> accel_fits a ch"
proof -
  from make_peak_windows_Inr_D[OF assms]
  obtain ch m data t i_max cols peak_t where
        ch: "map_of (channels a) ''acc'' = Some ch"
    and data: "accel_data a = Inr data"
    and m: "margin_len = Some m"
    and t: "peak_times ch = Inr t"
    and fs: "accelerationFs a \<noteq> 0"
    and pw: "peak_window_data data (length (accelerationResultant a)) m = Inr (i_max, cols)"
    and pk: "traverse (\<lambda>i. if i < length t then Inr (t ! i) else Inl IndexError) i_max = Inr peak_t"
    and ln: "length (axis_names ch) + 1 = length data"
    by blast
  let ?src = "accelerationData a @ [accelerationResultant a]"
  let ?g = "\<lambda>x. MPS2_TO_G a * x"
  have rect: "list_all (\<lambda>row. length row = length (accelerationResultant a)) (accelerationData a)"
    and d: "data = map (map ?g) ?src"
    using data by (auto simp: accel_data_def split: if_splits)
  have s: "sessions (ch_dataset ch) \<noteq> []"
    using t by (auto simp: peak_times_def split: list.splits)
  have lt: "length t = length (times ch)"
    using t by (auto simp: peak_times_def split: list.splits)
  note pwD = peak_window_data_Inr_D[OF pw]
  note am = traverse_Inr_D[OF pwD(2)]
  have li: "length i_max = length ?src"
    using am unfolding d by simp
  have arg: "argmax (map abs (map ?g (?src ! j))) = Inr (i_max ! j)" if "j < length ?src" for j
  proof -
    have "j < length (map (map abs) data)" using that unfolding d by simp
    then have "argmax (map (map abs) data ! j) = Inr (i_max ! j)"
      using am by blast
    moreover have "map (map abs) data ! j = map abs (map ?g (?src ! j))"
      unfolding d using that by (simp only: nth_map length_map)
    ultimately show ?thesis by simp
  qed
  have pi: "peak_index (map ?g (?src ! j)) = i_max ! j" if "j < length ?src" for j
    by (rule peak_index_of_argmax[OF arg[OF that]])
  have res: "accelerationResultant a \<noteq> []"
  proof -
    have j: "length (accelerationData a) < length ?src" by simp
    have "map abs (map ?g (?src ! length (accelerationData a))) \<noteq> []"
      by (rule argmax_Inr_nonempty[OF arg[OF j]])
    then show ?thesis by simp
  qed
  note pkD = traverse_Inr_D[OF pk]
  have bound: "i_max ! j < length (times ch)" if "j < length ?src" for j
  proof -
    have "j < length i_max" using that li by simp
    then have "(if i_max ! j < length t then Inr (t ! (i_max ! j)) else Inl IndexError)
                 = Inr (peak_t ! j)"
      using pkD by blast
    then show ?thesis unfolding lt by (simp split: if_splits)
  qed
  have peaks: "list_all (\<lambda>row. peak_index (map ?g row) < length (times ch)) ?src"
    unfolding list_all_length
  proof (intro allI impI)
    fix j assume j: "j < length ?src"
    show "peak_index (map ?g (?src ! j)) < length (times ch)"
      unfolding pi[OF j] by (rule bound[OF j])
  qed
  have la: "length (axis_names ch) = length (accelerationData a)"
    using ln unfolding d by simp
  have "accel_fits a ch"
    unfolding accel_fits_def using ch rect res la peaks s fs by blast
  then show ?thesis using m pwD(1) by blast
qed

text \<open>What the window of one row looks like.\<close>

lemma window_cell_peak:
  assumes "peak_index row < length row"
  shows "window_cell M row M = Some (row ! peak_index row)"
  using assms by (simp add: window_cell_def)

lemma peak_window_data_cols:
  assumes m: "0 \<le> m" and n: "0 < n" and rect: "list_all (\<lambda>row. length row = n) data"
  shows "\<exists>i_max cols.
           peak_window_data data n m = Inr (i_max, cols)
         \<and> i_max = map peak_index data
         \<and> length i_max = length data \<and> length cols = length data
         \<and> (\<forall>j<length data.
              i_max ! j < n
            \<and> (\<forall>k<n. \<bar>data ! j ! k\<bar> \<le> \<bar>data ! j ! (i_max ! j)\<bar>)
            \<and> length (cols ! j) = nat (2 * m + 1)
            \<and> cols ! j ! nat m = Some (data ! j ! (i_max ! j))
            \<and> (\<forall>k<nat (2 * m + 1).
                 cols ! j ! k = window_cell (nat m) (data ! j) k
               \<and> cols ! j ! k = (if nat m \<le> i_max ! j + k \<and> i_max ! j + k < nat m + n
                                 then Some (data ! j ! (i_max ! j + k - nat m)) else None)))"
proof -
  define W where "W = 2 * nat m + 1"
  define i_max where "i_max = map peak_index data"
  define cols where "cols = map (\<lambda>row. map (window_cell (nat m) row) [0..<W]) data"
  have Wn: "nat (2 * m + 1) = W" unfolding W_def using m by linarith
  have rows: "\<And>row. row \<in> set data \<Longrightarrow> length row = n"
    using rect by (simp add: list_all_iff)
  have pw: "peak_window_data data n m = Inr (i_max, cols)"
    unfolding i_max_def cols_def W_def by (rule peak_window_data_eq[OF m rows n])
  have per: "i_max ! j < n
            \<and> (\<forall>k<n. \<bar>data ! j ! k\<bar> \<le> \<bar>data ! j ! (i_max ! j)\<bar>)
            \<and> length (cols ! j) = nat (2 * m + 1)
            \<and> cols ! j ! nat m = Some (data ! j ! (i_max ! j))
            \<and> (\<forall>k<nat (2 * m + 1).
                 cols ! j ! k = window_cell (nat m) (data ! j) k
               \<and> cols ! j ! k = (if nat m \<le> i_max ! j + k \<and> i_max ! j + k < nat m + n
                                 then Some (data ! j ! (i_max ! j + k - nat m)) else None))"
    if j: "j < length data" for j
  proof -
    have l: "length (data ! j) = n" using rows j by simp
    then have ne: "data ! j \<noteq> []" using n by auto
    have ij: "i_max ! j = peak_index (data ! j)" unfolding i_max_def using j by simp
    have cj: "cols ! j = map (window_cell (nat m) (data ! j)) [0..<W]"
      unfolding cols_def using j by simp
    have c1: "i_max ! j < n"
      unfolding ij using peak_index_spec(2)[OF ne] l by simp
    have c2: "\<forall>k<n. \<bar>data ! j ! k\<bar> \<le> \<bar>data ! j ! (i_max ! j)\<bar>"
      unfolding ij using peak_index_spec(3)[OF ne] l by simp
    have c3: "length (cols ! j) = nat (2 * m + 1)"
      unfolding cj Wn by simp
    have ck: "cols ! j ! k = window_cell (nat m) (data ! j) k" if "k < W" for k
      unfolding cj using that by simp
    have mW: "nat m < W" unfolding W_def by simp
    have c4: "cols ! j ! nat m = Some (data ! j ! (i_max ! j))"
      unfolding ck[OF mW] ij
      by (rule window_cell_peak) (use c1 ij l in simp)
    have c5: "\<forall>k<nat (2 * m + 1).
                 cols ! j ! k = window_cell (nat m) (data ! j) k
               \<and> cols ! j ! k = (if nat m \<le> i_max ! j + k \<and> i_max ! j + k < nat m + n
                                 then Some (data ! j ! (i_max ! j + k - nat m)) else None)"
      unfolding Wn
    proof (intro allI impI conjI)
      fix k assume k: "k < W"
      show "cols ! j ! k = window_cell (nat m) (data ! j) k" by (rule ck[OF k])
      show "cols ! j ! k = (if nat m \<le> i_max ! j + k \<and> i_max ! j + k < nat m + n
                                 then Some (data ! j ! (i_max ! j + k - nat m)) else None)"
        unfolding ck[OF k] window_cell_def ij l ..
    qed
    show ?thesis by (intro conjI c1 c2 c3 c4 c5)
  qed
  have li: "length i_max = length data" unfolding i_max_def by simp
  have lc: "length cols = length data" unfolding cols_def by simp
  have im: "i_max = map peak_index data" unfolding i_max_def ..
  have all: "\<forall>j<length data.
              i_max ! j < n
            \<and> (\<forall>k<n. \<bar>data ! j ! k\<bar> \<le> \<bar>data ! j ! (i_max ! j)\<bar>)
            \<and> length (cols ! j) = nat (2 * m + 1)
            \<and> cols ! j ! nat m = Some (data ! j ! (i_max ! j))
            \<and> (\<forall>k<nat (2 * m + 1).
                 cols ! j ! k = window_cell (nat m) (data ! j) k
               \<and> cols ! j ! k = (if nat m \<le> i_max ! j + k \<and> i_max ! j + k < nat m + n
                                 then Some (data ! j ! (i_max ! j + k - nat m)) else None))"
    using per by (intro allI impI)
  show ?thesis
    by (intro exI[of _ i_max] exI[of _ cols] conjI pw im li lc all)
qed

section \<open>The concrete instances, evaluated\<close>

lemma fresh_from_plain: "GetDataBuilder plain_kwargs = Inr fresh_builder"
  by (simp add: GetDataBuilder_def plain_kwargs_def fresh_builder_def)

lemma some_builder_built: "apply_calls some_calls fresh_builder = Inr some_builder"
  by (simp add: some_calls_def some_builder_def fresh_builder_def add_psd_def add_peaks_def
      add_metrics_def bind_def dict_set_def dict_keys_def Let_def)

lemma make_psd_a:
  "make_psd two_files None None analyzer_a =
     Inr (Some [([Str ''X'', Num 1], FloatV 1), ([Str ''Resultant'', Num 1], FloatV 1)])"
  by (simp add: make_psd_def analyzer_a_def analyzer_b_def channel_a_def spectrum_series_def bind_def
      dict_set_def dict_keys_def)

lemma make_peak_windows_a:
  "make_peak_windows (Some 1) analyzer_a =
     Inr (Some [([Str ''X'', Micros 100, Seconds (- (1 / 10000))], FloatV 1),
                ([Str ''Resultant'', Micros 100, Seconds (- (1 / 10000))], FloatV 1),
                ([Str ''X'', Micros 100, Seconds 0], FloatV (- 3)),
                ([Str ''Resultant'', Micros 100, Seconds 0], FloatV 3),
                ([Str ''X'', Micros 100, Seconds (1 / 10000)], FloatV 2),
                ([Str ''Resultant'', Micros 100, Seconds (1 / 10000)], FloatV 2)])"
proof -
  have "accel_ok analyzer_a channel_a"
    by (simp add: accel_ok_def analyzer_a_def analyzer_b_def channel_a_def ds_a_def)
  then have ok: "accel_fits analyzer_a channel_a" by (rule accel_ok_fits)
  have d: "[[1, - 3, 2], [1, 3, 2]]
             = map (map (\<lambda>x. MPS2_TO_G analyzer_a * x))
                 (accelerationData analyzer_a @ [accelerationResultant analyzer_a])"
    by (simp add: analyzer_a_def analyzer_b_def)
  have f: "accelerationFs analyzer_a = 10000" "axis_names channel_a = [''X'']"
    "times channel_a = [500, 600, 700]" "firstTime (hd (sessions (ch_dataset channel_a))) = 500"
    by (simp_all add: analyzer_a_def channel_a_def ds_a_def)
  have p: "peak_index [1, - 3, 2] = 1" "peak_index [1, 3, 2] = 1"
    by (simp_all add: peak_index_def argmax_def)
  have u: "[0..<nat (2 * 1 + 1)] = [0, 1, 2]" "[0..<2] = [0, 1]"
    by (simp_all add: upt_rec)
  have m: "(0::int) \<le> 1" by simp
  show ?thesis
    unfolding make_peak_windows_rows[OF m ok d] f
    unfolding window_rows_def u
    by (simp add: window_cell_def window_key_def p u)
qed

lemma make_metrics_a:
  "make_metrics analyzer_a =
     Inr (Some [([Str ''RMS Acceleration'', Str ''X''], FloatV 2),
                ([Str ''Average Temperature'', Str ''Temperature''], FloatV 20)])"
  by (simp add: make_metrics_def analyzer_a_def analyzer_b_def stack_metric_def)

lemma make_metrics_b:
  "make_metrics analyzer_b =
     Inr (Some [([Str ''Average Temperature'', Str ''Temperature''], FloatV 25)])"
  by (simp add: make_metrics_def analyzer_b_def stack_metric_def)

lemma no_accel_b:
  "make_psd two_files None None analyzer_b = Inr None"
  "make_peak_windows (Some 1) analyzer_b = Inr None"
  by (simp_all add: make_psd_def make_peak_windows_def analyzer_b_def)

lemma get_data_a:
  "get_data two_files some_builder ''a.ide'' =
     Inr [(''meta'', Some [([Str ''serial number''], IntV 10118),
                           ([Str ''start time''], DateTime 1600000500)]),
          (''psd'', Some [([Str ''X'', Num 1], FloatV 1), ([Str ''Resultant'', Num 1], FloatV 1)]),
          (''peaks'',
            Some [([Str ''X'', Micros 100, Seconds (- (1 / 10000))], FloatV 1),
                  ([Str ''Resultant'', Micros 100, Seconds (- (1 / 10000))], FloatV 1),
                  ([Str ''X'', Micros 100, Seconds 0], FloatV (- 3)),
                  ([Str ''Resultant'', Micros 100, Seconds 0], FloatV 3),
                  ([Str ''X'', Micros 100, Seconds (1 / 10000)], FloatV 2),
                  ([Str ''Resultant'', Micros 100, Seconds (1 / 10000)], FloatV 2)]),
          (''metrics'', Some [([Str ''RMS Acceleration'', Str ''X''], FloatV 2),
                              ([Str ''Average Temperature'', Str ''Temperature''], FloatV 20)])]"
  by (simp add: get_data_def two_files_def some_builder_def fresh_builder_def funcs_def
      make_meta_def ds_a_def dict_get_def dict_keys_def dict_set_def bind_def
      make_psd_a[unfolded two_files_def] make_peak_windows_a make_metrics_a)

lemma get_data_b:
  "get_data two_files some_builder ''b.ide'' =
     Inr [(''meta'', Some [([Str ''serial number''], IntV 10119),
                           ([Str ''start time''], DateTime 1700000000)]),
          (''psd'', None), (''peaks'', None),
          (''metrics'', Some [([Str ''Average Temperature'', Str ''Temperature''], FloatV 25)])]"
  by (simp add: get_data_def two_files_def some_builder_def fresh_builder_def funcs_def
      make_meta_def ds_b_def dict_get_def dict_keys_def dict_set_def bind_def
      no_accel_b[unfolded two_files_def] make_metrics_b)

lemma zip_star_two:
  "zip_star [[a0, a1, a2, a3], [b0, b1, b2, b3]] = [[a0, b0], [a1, b1], [a2, b2], [a3, b3]]"
  by (simp add: zip_star_def upt_rec)

lemma aggregate_two_files:
  "aggregate_data two_files some_builder [''a.ide'', ''b.ide''] = Inr \<lparr>dataframes = two_files_tables\<rparr>"
proof -
  have q: "map fst (metrics_queue some_builder) = [''psd'', ''peaks'', ''metrics'']"
    by (simp add: some_builder_def)
  show ?thesis
    unfolding aggregate_data_def
    by (simp add: get_data_a get_data_b q bind_def dict_values_def zip_star_two concat_or_none_def
        pd_concat_def unstack_def dict_set_def dict_keys_def dict_get_def reformat_def melt_def
        loc_def two_files_tables_def)
qed

lemma entries_two_files:
  "recording_entry two_files some_builder ''a.ide'' ''psd'' =
     Some [([Str ''X'', Num 1], FloatV 1), ([Str ''Resultant'', Num 1], FloatV 1)]"
  "recording_entry two_files some_builder ''b.ide'' ''psd'' = None"
  "recording_entry two_files some_builder ''a.ide'' ''metrics'' =
     Some [([Str ''RMS Acceleration'', Str ''X''], FloatV 2),
           ([Str ''Average Temperature'', Str ''Temperature''], FloatV 20)]"
  "recording_entry two_files some_builder ''b.ide'' ''metrics'' =
     Some [([Str ''Average Temperature'', Str ''Temperature''], FloatV 25)]"
  by (simp_all add: recording_entry_def get_data_a get_data_b)

lemma accel_ok_xy: "accel_ok analyzer_xy channel_xy"
  by (simp add: accel_ok_def analyzer_xy_def analyzer_b_def channel_xy_def ds_a_def)

lemma accel_data_xy: "accel_data analyzer_xy = Inr [[1, - 3, 2], [4, 1, 1], [4, 3, 2]]"
  by (simp add: accel_data_def analyzer_xy_def analyzer_b_def)

lemma peak_index_xy:
  "peak_index [1, - 3, 2] = 1" "peak_index [4, 1, 1] = 0" "peak_index [4, 3, 2] = 0"
  by (simp_all add: peak_index_def argmax_def)

lemma upt_3: "[0..<3] = [0, 1, 2]" "[0..<2 * nat 1 + 1] = [0, 1, 2]" "[0..<nat (2 * 1 + 1)] = [0, 1, 2]"
  by (simp_all add: upt_rec)

lemma peak_window_data_xy:
  "peak_window_data [[1, - 3, 2], [4, 1, 1], [4, 3, 2]] 3 1 =
     Inr ([1, 0, 0],
          [[Some 1, Some (- 3), Some 2], [None, Some 4, Some 1], [None, Some 4, Some 3]])"
proof -
  have "peak_window_data [[1, - 3, 2], [4, 1, 1], [4, 3, 2]] 3 1 =
           Inr (map peak_index [[1, - 3, 2], [4, 1, 1], [4, 3, 2]],
                map (\<lambda>row. map (window_cell (nat 1) row) [0..<2 * nat 1 + 1])
                  [[1, - 3, 2], [4, 1, 1], [4, 3, 2]])"
    by (rule peak_window_data_eq) auto
  then show ?thesis
    unfolding upt_3 by (simp add: window_cell_def peak_index_xy)
qed

lemma make_peak_windows_xy:
  "make_peak_windows (Some 1) analyzer_xy =
     Inr (Some [(window_key ''X'' 100 (1 / 10000) (- 1), FloatV 1),
                (window_key ''X'' 100 (1 / 10000) 0, FloatV (- 3)),
                (window_key ''Y'' 0 (1 / 10000) 0, FloatV 4),
                (window_key ''Resultant'' 0 (1 / 10000) 0, FloatV 4),
                (window_key ''X'' 100 (1 / 10000) 1, FloatV 2),
                (window_key ''Y'' 0 (1 / 10000) 1, FloatV 1),
                (window_key ''Resultant'' 0 (1 / 10000) 1, FloatV 3)])"
proof -
  have d: "[[1, - 3, 2], [4, 1, 1], [4, 3, 2]]
             = map (map (\<lambda>x. MPS2_TO_G analyzer_xy * x))
                 (accelerationData analyzer_xy @ [accelerationResultant analyzer_xy])"
    by (simp add: analyzer_xy_def analyzer_b_def)
  have f: "accelerationFs analyzer_xy = 10000" "axis_names channel_xy = [''X'', ''Y'']"
    "times channel_xy = [500, 600, 700]" "firstTime (hd (sessions (ch_dataset channel_xy))) = 500"
    by (simp_all add: analyzer_xy_def channel_xy_def ds_a_def)
  have m: "(0::int) \<le> 1" by simp
  show ?thesis
    unfolding make_peak_windows_rows[OF m accel_ok_fits[OF accel_ok_xy] d] f
    unfolding window_rows_def upt_3
    by (simp add: window_cell_def peak_index_xy)
qed

section \<open>The builder's validation and defaults\<close>

text \<open>
  Claim C7. The constructor raises \<^verbatim>\<open>ValueError\<close> exactly when an absolute time and a
  margin are both given for the start edge, or both for the end edge of the
  acceleration window. It takes no recording, so the error arises before any
  recording is opened; in every other case it returns a builder with an empty queue
  that keeps the arguments. In particular an absolute bound on one edge together with
  a margin on the other edge is accepted.
\<close>

theorem GetDataBuilder_validation:
  "((GetDataBuilder kw = Inl ValueError) \<longleftrightarrow>
      (accel_start_time kw \<noteq> None \<and> accel_start_margin kw \<noteq> None) \<or>
      (accel_end_time kw \<noteq> None \<and> accel_end_margin kw \<noteq> None))
   \<and> ((\<exists>b. GetDataBuilder kw = Inr b \<and> metrics_queue b = [] \<and> kwargs b = kw) \<longleftrightarrow>
        GetDataBuilder kw \<noteq> Inl ValueError)
   \<and> (accel_start_margin kw = None \<and> accel_end_time kw = None \<longrightarrow>
        (\<exists>b. GetDataBuilder kw = Inr b))
   \<and> (accel_start_time kw = None \<and> accel_end_margin kw = None \<longrightarrow>
        (\<exists>b. GetDataBuilder kw = Inr b))"
  by (simp add: GetDataBuilder_def)

theorem GetDataBuilder_validation_witness:
  "GetDataBuilder (plain_kwargs\<lparr>accel_start_time := Some 5, accel_start_margin := Some 2\<rparr>)
     = Inl ValueError
   \<and> GetDataBuilder (plain_kwargs\<lparr>accel_end_time := Some 10, accel_end_margin := Some 2\<rparr>)
     = Inl ValueError
   \<and> (\<exists>b. GetDataBuilder (plain_kwargs\<lparr>accel_start_time := Some 5, accel_end_margin := Some 2\<rparr>)
         = Inr b)
   \<and> (\<exists>b. GetDataBuilder (plain_kwargs\<lparr>accel_start_margin := Some 2, accel_end_time := Some 10\<rparr>)
         = Inr b)
   \<and> GetDataBuilder plain_kwargs = Inr fresh_builder"
  using GetDataBuilder_validation
          [of "plain_kwargs\<lparr>accel_start_time := Some 5, accel_start_margin := Some 2\<rparr>"]
        GetDataBuilder_validation
          [of "plain_kwargs\<lparr>accel_end_time := Some 10, accel_end_margin := Some 2\<rparr>"]
        GetDataBuilder_validation
          [of "plain_kwargs\<lparr>accel_start_time := Some 5, accel_end_margin := Some 2\<rparr>"]
        GetDataBuilder_validation
          [of "plain_kwargs\<lparr>accel_start_margin := Some 2, accel_end_time := Some 10\<rparr>"]
  by (simp add: plain_kwargs_def fresh_builder_def GetDataBuilder_def)

text \<open>
  Claim C3. When \<^verbatim>\<open>pvss\<close> is not in the queue, \<^verbatim>\<open>add_metrics\<close> sets the pvss initial
  frequency to 1 and the pvss bins per octave to 12, and \<^verbatim>\<open>pvss\<close> stays out of the
  queue; when \<^verbatim>\<open>pvss\<close> is queued, nothing but the queue changes. When \<^verbatim>\<open>psd\<close> is not in
  the queue, \<^verbatim>\<open>add_vc_curves\<close> sets the psd frequency-bin width to 0.2 (and the psd
  window), and \<^verbatim>\<open>psd\<close> stays out of the queue; when \<^verbatim>\<open>psd\<close> is queued, the psd
  parameters are kept. The record equations say that every other attribute is
  unchanged.
\<close>

theorem add_metrics_add_vc_curves_seed_defaults:
  "(''pvss'' \<notin> set (dict_keys (metrics_queue self)) \<longrightarrow>
      add_metrics self =
        self\<lparr>metrics_queue := dict_set (metrics_queue self) ''metrics'' (),
             pvss_init_freq := Some 1, pvss_bins_per_octave := Some 12\<rparr>
      \<and> pvss_init_freq (add_metrics self) = Some 1
      \<and> pvss_bins_per_octave (add_metrics self) = Some 12
      \<and> ''pvss'' \<notin> set (dict_keys (metrics_queue (add_metrics self))))
   \<and> (''pvss'' \<in> set (dict_keys (metrics_queue self)) \<longrightarrow>
      add_metrics self = self\<lparr>metrics_queue := dict_set (metrics_queue self) ''metrics'' ()\<rparr>)
   \<and> (''psd'' \<notin> set (dict_keys (metrics_queue self)) \<longrightarrow>
      add_vc_curves f b self =
        self\<lparr>metrics_queue := dict_set (metrics_queue self) ''vc_curves'' (),
             psd_freq_bin_width := Some 0.2, psd_window := Some ''hanning'',
             vc_init_freq := Some f, vc_bins_per_octave := Some b\<rparr>
      \<and> psd_freq_bin_width (add_vc_curves f b self) = Some 0.2
      \<and> ''psd'' \<notin> set (dict_keys (metrics_queue (add_vc_curves f b self))))
   \<and> (''psd'' \<in> set (dict_keys (metrics_queue self)) \<longrightarrow>
      add_vc_curves f b self =
        self\<lparr>metrics_queue := dict_set (metrics_queue self) ''vc_curves'' (),
             vc_init_freq := Some f, vc_bins_per_octave := Some b\<rparr>)"
  by (simp add: add_metrics_def add_vc_curves_def Let_def dict_keys_dict_set)

theorem add_metrics_add_vc_curves_seed_defaults_witness:
  "pvss_init_freq (add_metrics fresh_builder) = Some 1
   \<and> pvss_bins_per_octave (add_metrics fresh_builder) = Some 12
   \<and> dict_keys (metrics_queue (add_metrics fresh_builder)) = [''metrics'']
   \<and> pvss_init_freq (add_metrics (add_pvss 2 6 fresh_builder)) = Some 2
   \<and> pvss_bins_per_octave (add_metrics (add_pvss 2 6 fresh_builder)) = Some 6
   \<and> psd_freq_bin_width (add_vc_curves 1 3 fresh_builder) = Some 0.2
   \<and> dict_keys (metrics_queue (add_vc_curves 1 3 fresh_builder)) = [''vc_curves'']
   \<and> psd_freq_bin_width (add_vc_curves 1 3 (add_pvss 2 6 fresh_builder)) = Some 0.2
   \<and> pvss_init_freq (add_vc_curves 1 3 (add_pvss 2 6 fresh_builder)) = Some 2"
  using add_metrics_add_vc_curves_seed_defaults [of fresh_builder 1 3]
        add_metrics_add_vc_curves_seed_defaults [of "add_pvss 2 6 fresh_builder" 1 3]
  by (simp add: fresh_builder_def add_pvss_def dict_set_def dict_keys_def)




text \<open>
  Claim C10. \<^verbatim>\<open>aggregate_data\<close> on an empty list of recordings raises: nothing is
  extracted, the transposed list of series is empty, and the unpacking
  \<^verbatim>\<open>meta, *dfs = ...\<close> finds no first element.
\<close>

theorem aggregate_data_no_recordings_raises:
  "aggregate_data w self [] = Inl ValueError"
  by (simp add: aggregate_data_def bind_def zip_star_def)

section \<open>The request queue and the aggregation\<close>

text \<open>
  The three claims of this section are about builders made through the interface:
  the constructor followed by a chain of \<^verbatim>\<open>add_*\<close> calls, none of which raised.
\<close>

text \<open>
  Claim C5. After any chain of \<^verbatim>\<open>add_*\<close> calls on a new builder, the queue holds each
  requested kind once, in the order of first insertion; adding a kind that is queued
  leaves the order of the queue as it is; whenever \<^verbatim>\<open>aggregate_data\<close> returns, the
  keys of its result are \<^verbatim>\<open>meta\<close> followed by the kinds in queue order; and after
  each further \<^verbatim>\<open>add_*\<close> call on such a builder, whether or not the kind is queued
  already, the parameters of that kind are the arguments of the call: for \<^verbatim>\<open>add_psd\<close>
  the density and the window as given, the bin width and the start frequency as given
  when a bin width is given, and the derived width with the start frequency (1 when
  not supplied) otherwise; for \<^verbatim>\<open>add_pvss\<close>, \<^verbatim>\<open>add_peaks\<close> and \<^verbatim>\<open>add_vc_curves\<close> the
  arguments as given.
\<close>

theorem queue_order_and_result_order:
  assumes "GetDataBuilder kw = Inr b0" and "apply_calls cs b0 = Inr self"
  shows "dict_keys (metrics_queue self) = first_seen (map call_kind cs)
       \<and> distinct (dict_keys (metrics_queue self))
       \<and> (\<forall>c self'. apply_call c self = Inr self'
              \<and> call_kind c \<in> set (dict_keys (metrics_queue self))
            \<longrightarrow> dict_keys (metrics_queue self') = dict_keys (metrics_queue self))
       \<and> (\<forall>w fs out. aggregate_data w self fs = Inr out
            \<longrightarrow> dict_keys (dataframes out) = ''meta'' # dict_keys (metrics_queue self))
       \<and> (\<forall>w s b win self'. add_psd w s b win self = Inr self' \<longrightarrow>
              psd_bins_per_octave self' = b \<and> psd_window self' = Some win
            \<and> (\<forall>x. w = Some x \<longrightarrow>
                  psd_freq_bin_width self' = Some x \<and> psd_freq_start_octave self' = s)
            \<and> (\<forall>bpo. w = None \<and> b = Some bpo \<longrightarrow>
                  psd_freq_bin_width self' =
                    Some ((case s of None \<Rightarrow> 1 | Some f \<Rightarrow> f)
                          / of_int (py_int (5 / fstart_breadth bpo)))
                \<and> psd_freq_start_octave self' = Some (case s of None \<Rightarrow> 1 | Some f \<Rightarrow> f)))
       \<and> (\<forall>f b. pvss_init_freq (add_pvss f b self) = Some f
                \<and> pvss_bins_per_octave (add_pvss f b self) = Some b)
       \<and> (\<forall>m. peak_window_margin_len (add_peaks m self) = Some m)
       \<and> (\<forall>f b. vc_init_freq (add_vc_curves f b self) = Some f
                \<and> vc_bins_per_octave (add_vc_curves f b self) = Some b)"
proof (intro conjI allI impI)
  show "dict_keys (metrics_queue self) = first_seen (map call_kind cs)"
    using assms by (rule built_queue(1))
  show "distinct (dict_keys (metrics_queue self))"
    using assms by (rule built_queue(2))
next
  fix c self'
  assume "apply_call c self = Inr self' \<and> call_kind c \<in> set (dict_keys (metrics_queue self))"
  then show "dict_keys (metrics_queue self') = dict_keys (metrics_queue self)"
    using apply_call_keys[of c self self'] by simp
next
  fix w fs out
  assume agg: "aggregate_data w self fs = Inr out"
  from aggregate_data_Inr_D[OF built_queue(2)[OF assms] built_queue(3)[OF assms] refl agg]
  obtain S T where "dataframes out =
               (''meta'', Some (MetaTable (meta_frame S T fs)))
               # map (\<lambda>k. (k,
                           if list_ex (\<lambda>f. recording_entry w self f k \<noteq> None) fs
                           then Some (Tidy (tidy_of S T fs (\<lambda>f. recording_entry w self f k)))
                           else None))
                   (dict_keys (metrics_queue self))"
    by blast
  then show "dict_keys (dataframes out) = ''meta'' # dict_keys (metrics_queue self)"
    by (simp add: dict_keys_def[of "dataframes out"] dict_keys_def[of "_ # _"] comp_def)
next
  fix w s b win self'
  assume a: "add_psd w s b win self = Inr self'"
  show "psd_bins_per_octave self' = b" "psd_window self' = Some win"
    using a by (rule add_psd_params)+
  {
    fix x
    assume "w = Some x"
    then show "psd_freq_bin_width self' = Some x" "psd_freq_start_octave self' = s"
      using add_psd_params(3)[OF a] by simp_all
  }
  {
    fix bpo
    assume "w = None \<and> b = Some bpo"
    then show "psd_freq_bin_width self' =
                    Some ((case s of None \<Rightarrow> 1 | Some f \<Rightarrow> f)
                          / of_int (py_int (5 / fstart_breadth bpo)))"
      "psd_freq_start_octave self' = Some (case s of None \<Rightarrow> 1 | Some f \<Rightarrow> f)"
      using add_psd_params(4)[OF a] by simp_all
  }
next
  fix f b
  show "pvss_init_freq (add_pvss f b self) = Some f"
    "pvss_bins_per_octave (add_pvss f b self) = Some b"
    by (simp_all add: add_pvss_def)
  show "vc_init_freq (add_vc_curves f b self) = Some f"
    "vc_bins_per_octave (add_vc_curves f b self) = Some b"
    by (simp_all add: add_vc_curves_def Let_def)
next
  fix m
  show "peak_window_margin_len (add_peaks m self) = Some m"
    by (simp add: add_peaks_def)
qed

theorem queue_order_and_result_order_witness:
  "GetDataBuilder plain_kwargs = Inr fresh_builder
   \<and> apply_calls some_calls fresh_builder = Inr some_builder
   \<and> map call_kind some_calls = [''psd'', ''peaks'', ''metrics'', ''psd'']
   \<and> dict_keys (metrics_queue some_builder) = [''psd'', ''peaks'', ''metrics'']
   \<and> aggregate_data two_files some_builder [''a.ide'', ''b.ide'']
       = Inr \<lparr>dataframes = two_files_tables\<rparr>
   \<and> dict_keys two_files_tables = [''meta'', ''psd'', ''peaks'', ''metrics'']
   \<and> psd_freq_bin_width some_builder = Some 1
   \<and> psd_window some_builder = Some ''hanning''
   \<and> peak_window_margin_len some_builder = Some 1
   \<and> (\<exists>self'. add_psd (Some 3) (Some 5) None ''boxcar'' some_builder = Inr self'
         \<and> psd_freq_bin_width self' = Some 3 \<and> psd_freq_start_octave self' = Some 5
         \<and> psd_bins_per_octave self' = None \<and> psd_window self' = Some ''boxcar''
         \<and> dict_keys (metrics_queue self') = [''psd'', ''peaks'', ''metrics''])
   \<and> peak_window_margin_len (add_peaks 7 some_builder) = Some 7
   \<and> dict_keys (metrics_queue (add_peaks 7 some_builder)) = [''psd'', ''peaks'', ''metrics'']
   \<and> pvss_init_freq (add_pvss 2 6 some_builder) = Some 2
   \<and> pvss_bins_per_octave (add_pvss 2 6 some_builder) = Some 6
   \<and> vc_init_freq (add_vc_curves 4 3 some_builder) = Some 4
   \<and> vc_bins_per_octave (add_vc_curves 4 3 some_builder) = Some 3"
proof -
  note t = queue_order_and_result_order[OF fresh_from_plain some_builder_built]
  have calls: "map call_kind some_calls = [''psd'', ''peaks'', ''metrics'', ''psd'']"
    by (simp add: some_calls_def)
  have "dict_keys (metrics_queue some_builder) = first_seen (map call_kind some_calls)"
    using t[THEN conjunct1] .
  then have q: "dict_keys (metrics_queue some_builder) = [''psd'', ''peaks'', ''metrics'']"
    unfolding calls by (simp add: first_seen_def)
  note keep = t[THEN conjunct2, THEN conjunct2, THEN conjunct1, rule_format]
  note res = t[THEN conjunct2, THEN conjunct2, THEN conjunct2, THEN conjunct1, rule_format]
  note psd = t[THEN conjunct2, THEN conjunct2, THEN conjunct2, THEN conjunct2, THEN conjunct1,
               rule_format]
  note pvss = t[THEN conjunct2, THEN conjunct2, THEN conjunct2, THEN conjunct2, THEN conjunct2,
                THEN conjunct1, rule_format]
  note peaks = t[THEN conjunct2, THEN conjunct2, THEN conjunct2, THEN conjunct2, THEN conjunct2,
                 THEN conjunct2, THEN conjunct1, rule_format]
  note vc = t[THEN conjunct2, THEN conjunct2, THEN conjunct2, THEN conjunct2, THEN conjunct2,
              THEN conjunct2, THEN conjunct2, rule_format]
  have "dict_keys (dataframes \<lparr>dataframes = two_files_tables\<rparr>)
          = ''meta'' # dict_keys (metrics_queue some_builder)"
    using aggregate_two_files by (rule res)
  then have r: "dict_keys two_files_tables = [''meta'', ''psd'', ''peaks'', ''metrics'']"
    unfolding q by simp
  have cur: "psd_freq_bin_width some_builder = Some 1"
    "psd_window some_builder = Some ''hanning''"
    "peak_window_margin_len some_builder = Some 1"
    by (simp_all add: some_builder_def)
  define self' where "self' = some_builder
      \<lparr>metrics_queue := dict_set (metrics_queue some_builder) ''psd'' (),
       psd_freq_bin_width := Some 3, psd_freq_start_octave := Some 5,
       psd_bins_per_octave := None, psd_window := Some ''boxcar''\<rparr>"
  have e: "add_psd (Some 3) (Some 5) None ''boxcar'' some_builder = Inr self'"
    unfolding self'_def by (rule add_psd_given_width)
  have e': "apply_call (AddPsd (Some 3) (Some 5) None ''boxcar'') some_builder = Inr self'"
    using e by simp
  have k1: "dict_keys (metrics_queue self') = [''psd'', ''peaks'', ''metrics'']"
    using keep[of "AddPsd (Some 3) (Some 5) None ''boxcar''" self'] e' q by simp
  have p1: "psd_freq_bin_width self' = Some 3" "psd_freq_start_octave self' = Some 5"
    "psd_bins_per_octave self' = None" "psd_window self' = Some ''boxcar''"
    using psd[OF e] by simp_all
  have x: "\<exists>self'. add_psd (Some 3) (Some 5) None ''boxcar'' some_builder = Inr self'
         \<and> psd_freq_bin_width self' = Some 3 \<and> psd_freq_start_octave self' = Some 5
         \<and> psd_bins_per_octave self' = None \<and> psd_window self' = Some ''boxcar''
         \<and> dict_keys (metrics_queue self') = [''psd'', ''peaks'', ''metrics'']"
    by (intro exI[of _ self'] conjI e p1 k1)
  have k2: "dict_keys (metrics_queue (add_peaks 7 some_builder)) = [''psd'', ''peaks'', ''metrics'']"
    using keep[of "AddPeaks 7" "add_peaks 7 some_builder"] q by simp
  show ?thesis
    by (intro conjI fresh_from_plain some_builder_built calls q aggregate_two_files r cur x
        peaks k2 pvss[THEN conjunct1] pvss[THEN conjunct2] vc[THEN conjunct1] vc[THEN conjunct2])
qed

text \<open>
  Claim C6. \<^verbatim>\<open>aggregate_data\<close> returns whenever the list of recordings is not empty,
  names no recording twice and every recording can be extracted, whatever kinds the
  recordings lack. For a queued kind, if every recording's entry is \<^verbatim>\<open>None\<close> the
  aggregated entry is \<^verbatim>\<open>None\<close>; otherwise it is a table whose rows are the entries of
  the recordings that have the kind, in the order of the recordings, each keyed by
  its recording.
\<close>

theorem aggregate_data_skips_absent:
  assumes "GetDataBuilder kw = Inr b0" and "apply_calls cs b0 = Inr self"
  shows "(fs \<noteq> [] \<and> distinct fs \<and> list_all (\<lambda>f. \<exists>d. get_data w self f = Inr d) fs
            \<longrightarrow> (\<exists>out. aggregate_data w self fs = Inr out))
       \<and> (\<forall>out k. aggregate_data w self fs = Inr out \<and> k \<in> set (dict_keys (metrics_queue self))
            \<longrightarrow> (if list_all (\<lambda>f. recording_entry w self f k = None) fs
                 then map_of (dataframes out) k = Some None
                 else \<exists>rows. map_of (dataframes out) k = Some (Some (Tidy rows))
                        \<and> map (\<lambda>r. (row_filename r, row_index r, row_value r)) rows =
                            concat (map (\<lambda>f. case recording_entry w self f k of
                                               None \<Rightarrow> []
                                             | Some s \<Rightarrow> map (\<lambda>(idx, v). (Str f, idx, v)) s) fs)))"
proof (intro conjI allI impI)
  note ks = built_queue(2)[OF assms] built_queue(3)[OF assms]
  assume a: "fs \<noteq> [] \<and> distinct fs \<and> list_all (\<lambda>f. \<exists>d. get_data w self f = Inr d) fs"
  then have gd: "\<And>f. f \<in> set fs \<Longrightarrow> \<exists>d. get_data w self f = Inr d"
    by (simp add: list_all_iff)
  have fs: "fs \<noteq> []" and d: "distinct fs" using a by auto
  from aggregate_data_queue[of "dict_keys (metrics_queue self)" self fs w, OF ks refl fs gd]
  obtain r where "aggregate_data w self fs = (if distinct fs then Inr r else Inl ValueError)"
    by blast
  then show "\<exists>out. aggregate_data w self fs = Inr out" using d by simp
next
  note ks = built_queue(2)[OF assms] built_queue(3)[OF assms]
  fix out k
  assume a: "aggregate_data w self fs = Inr out \<and> k \<in> set (dict_keys (metrics_queue self))"
  let ?E = "\<lambda>f. recording_entry w self f k"
  from aggregate_data_Inr_D[OF ks refl conjunct1[OF a]]
  obtain S T where df: "dataframes out =
               (''meta'', Some (MetaTable (meta_frame S T fs)))
               # map (\<lambda>k. (k,
                           if list_ex (\<lambda>f. recording_entry w self f k \<noteq> None) fs
                           then Some (Tidy (tidy_of S T fs (\<lambda>f. recording_entry w self f k)))
                           else None))
                   (dict_keys (metrics_queue self))"
    by blast
  have "k \<noteq> ''meta''" using a ks(2) by auto
  then have m: "map_of (dataframes out) k =
          Some (if list_ex (\<lambda>f. ?E f \<noteq> None) fs then Some (Tidy (tidy_of S T fs ?E)) else None)"
    unfolding df using a by (simp add: map_of_map_key)
  show "if list_all (\<lambda>f. ?E f = None) fs
        then map_of (dataframes out) k = Some None
        else \<exists>rows. map_of (dataframes out) k = Some (Some (Tidy rows))
               \<and> map (\<lambda>r. (row_filename r, row_index r, row_value r)) rows =
                   concat (map (\<lambda>f. case ?E f of
                                      None \<Rightarrow> []
                                    | Some s \<Rightarrow> map (\<lambda>(idx, v). (Str f, idx, v)) s) fs)"
    unfolding m list_all_None_iff by (simp add: tidy_of_proj)
qed

theorem aggregate_data_skips_absent_witness:
  "GetDataBuilder plain_kwargs = Inr fresh_builder
   \<and> apply_calls some_calls fresh_builder = Inr some_builder
   \<and> recording_entry two_files some_builder ''b.ide'' ''psd'' = None
   \<and> (\<exists>out. aggregate_data two_files some_builder [''b.ide''] = Inr out
          \<and> map_of (dataframes out) ''psd'' = Some None)
   \<and> (\<exists>out rows. aggregate_data two_files some_builder [''a.ide'', ''b.ide''] = Inr out
          \<and> map_of (dataframes out) ''psd'' = Some (Some (Tidy rows))
          \<and> map (\<lambda>r. (row_filename r, row_index r, row_value r)) rows =
               [(Str ''a.ide'', [Str ''X'', Num 1], FloatV 1),
                (Str ''a.ide'', [Str ''Resultant'', Num 1], FloatV 1)])"
proof -
  note b = fresh_from_plain some_builder_built
  have q: "''psd'' \<in> set (dict_keys (metrics_queue some_builder))"
    by (simp add: some_builder_def dict_keys_def)
  have "\<exists>out. aggregate_data two_files some_builder [''b.ide''] = Inr out"
    using aggregate_data_skips_absent[OF b, of "[''b.ide'']" two_files] get_data_b by simp
  then obtain out1 where o1: "aggregate_data two_files some_builder [''b.ide''] = Inr out1"
    by blast
  have "map_of (dataframes out1) ''psd'' = Some None"
    using aggregate_data_skips_absent[OF b, of "[''b.ide'']" two_files, THEN conjunct2,
        rule_format, OF conjI[OF o1 q]]
    by (simp add: entries_two_files)
  then have one: "\<exists>out. aggregate_data two_files some_builder [''b.ide''] = Inr out
          \<and> map_of (dataframes out) ''psd'' = Some None"
    using o1 by blast
  have "\<exists>rows. map_of (dataframes \<lparr>dataframes = two_files_tables\<rparr>) ''psd'' = Some (Some (Tidy rows))
          \<and> map (\<lambda>r. (row_filename r, row_index r, row_value r)) rows =
               [(Str ''a.ide'', [Str ''X'', Num 1], FloatV 1),
                (Str ''a.ide'', [Str ''Resultant'', Num 1], FloatV 1)]"
    using aggregate_data_skips_absent[OF b, of "[''a.ide'', ''b.ide'']" two_files, THEN conjunct2,
        rule_format, OF conjI[OF aggregate_two_files q]]
    by (simp add: entries_two_files)
  then obtain rows where
    r0: "map_of (dataframes \<lparr>dataframes = two_files_tables\<rparr>) ''psd'' = Some (Some (Tidy rows))
       \<and> map (\<lambda>r. (row_filename r, row_index r, row_value r)) rows =
               [(Str ''a.ide'', [Str ''X'', Num 1], FloatV 1),
                (Str ''a.ide'', [Str ''Resultant'', Num 1], FloatV 1)]" ..
  note r = conjunct1[OF r0] conjunct2[OF r0]
  have two: "\<exists>out rows. aggregate_data two_files some_builder [''a.ide'', ''b.ide''] = Inr out
          \<and> map_of (dataframes out) ''psd'' = Some (Some (Tidy rows))
          \<and> map (\<lambda>r. (row_filename r, row_index r, row_value r)) rows =
               [(Str ''a.ide'', [Str ''X'', Num 1], FloatV 1),
                (Str ''a.ide'', [Str ''Resultant'', Num 1], FloatV 1)]"
    using aggregate_two_files r
    by (intro exI[of _ "\<lparr>dataframes = two_files_tables\<rparr>"] exI[of _ rows] conjI)
  show ?thesis
    using b one two by (simp add: entries_two_files)
qed

text \<open>
  Claim C2. Whenever \<^verbatim>\<open>aggregate_data\<close> returns a table for a kind, the table has as many
  rows as the recordings' series for that kind have entries together, its rows are
  those entries in order, and every row carries the serial number and the start time
  that \<^verbatim>\<open>_make_meta\<close> gives for the recording named in the row.
\<close>

theorem aggregate_data_rows_joined:
  assumes "GetDataBuilder kw = Inr b0" and "apply_calls cs b0 = Inr self"
    and "aggregate_data w self fs = Inr out"
    and "map_of (dataframes out) k = Some (Some (Tidy rows))"
  shows "length rows =
           sum_list (map (\<lambda>f. case recording_entry w self f k of None \<Rightarrow> 0 | Some s \<Rightarrow> length s) fs)
       \<and> map (\<lambda>r. (row_filename r, row_index r, row_value r)) rows =
           concat (map (\<lambda>f. case recording_entry w self f k of
                              None \<Rightarrow> []
                            | Some s \<Rightarrow> map (\<lambda>(idx, v). (Str f, idx, v)) s) fs)
       \<and> (\<forall>r\<in>set rows. \<exists>f\<in>set fs. row_filename r = Str f
              \<and> meta_value w f ''serial number'' = Some (serial_number r)
              \<and> meta_value w f ''start time'' = Some (start_time r))"
proof -
  note ks = built_queue(2)[OF assms(1,2)] built_queue(3)[OF assms(1,2)]
  let ?E = "\<lambda>f. recording_entry w self f k"
  from aggregate_data_Inr_D[OF ks refl assms(3)]
  obtain S T where
    m: "\<forall>f\<in>set fs. recording_meta w f =
                      Inr [([Str ''serial number''], S f), ([Str ''start time''], T f)]"
    and df: "dataframes out =
               (''meta'', Some (MetaTable (meta_frame S T fs)))
               # map (\<lambda>k. (k,
                           if list_ex (\<lambda>f. recording_entry w self f k \<noteq> None) fs
                           then Some (Tidy (tidy_of S T fs (\<lambda>f. recording_entry w self f k)))
                           else None))
                   (dict_keys (metrics_queue self))"
    by blast
  have "k \<noteq> ''meta''" using assms(4) unfolding df by auto
  then have "map_of (map (\<lambda>k. (k,
                           if list_ex (\<lambda>f. recording_entry w self f k \<noteq> None) fs
                           then Some (Tidy (tidy_of S T fs (\<lambda>f. recording_entry w self f k)))
                           else None))
                   (dict_keys (metrics_queue self))) k = Some (Some (Tidy rows))"
    using assms(4) unfolding df by simp
  from map_of_map_key_D[OF this]
  have rows: "rows = tidy_of S T fs ?E" by (auto split: if_splits)
  have j: "\<exists>f\<in>set fs. row_filename r = Str f
              \<and> meta_value w f ''serial number'' = Some (serial_number r)
              \<and> meta_value w f ''start time'' = Some (start_time r)"
    if "r \<in> set rows" for r
  proof -
    from tidy_of_joined[OF that[unfolded rows]] obtain f where
      f: "f \<in> set fs" "row_filename r = Str f" "serial_number r = S f" "start_time r = T f"
      by blast
    from m f(1) have "recording_meta w f =
                      Inr [([Str ''serial number''], S f), ([Str ''start time''], T f)]" by blast
    from meta_value_of[OF this] f show ?thesis by auto
  qed
  show ?thesis
    unfolding rows[symmetric] using j
    by (simp add: rows length_tidy_of tidy_of_proj)
qed

theorem aggregate_data_rows_joined_witness:
  "GetDataBuilder plain_kwargs = Inr fresh_builder
   \<and> apply_calls some_calls fresh_builder = Inr some_builder
   \<and> aggregate_data two_files some_builder [''a.ide'', ''b.ide'']
       = Inr \<lparr>dataframes = two_files_tables\<rparr>
   \<and> (\<exists>rows. map_of two_files_tables ''metrics'' = Some (Some (Tidy rows))
         \<and> length rows = 3
         \<and> map row_filename rows = [Str ''a.ide'', Str ''a.ide'', Str ''b.ide'']
         \<and> map serial_number rows = [IntV 10118, IntV 10118, IntV 10119]
         \<and> map start_time rows = [DateTime 1600000500, DateTime 1600000500, DateTime 1700000000])
   \<and> meta_value two_files ''a.ide'' ''serial number'' = Some (IntV 10118)
   \<and> meta_value two_files ''b.ide'' ''serial number'' = Some (IntV 10119)
   \<and> meta_value two_files ''a.ide'' ''start time'' = Some (DateTime 1600000500)
   \<and> meta_value two_files ''b.ide'' ''start time'' = Some (DateTime 1700000000)"
proof -
  note b = fresh_from_plain some_builder_built
  obtain rows where rows: "map_of two_files_tables ''metrics'' = Some (Some (Tidy rows))"
    and cols: "map row_filename rows = [Str ''a.ide'', Str ''a.ide'', Str ''b.ide'']"
       "map serial_number rows = [IntV 10118, IntV 10118, IntV 10119]"
       "map start_time rows = [DateTime 1600000500, DateTime 1600000500, DateTime 1700000000]"
    by (simp add: two_files_tables_def)
  have m: "map_of (dataframes \<lparr>dataframes = two_files_tables\<rparr>) ''metrics'' = Some (Some (Tidy rows))"
    using rows by simp
  note t = aggregate_data_rows_joined[OF b aggregate_two_files m]
  have len: "length rows = 3"
    using t by (simp add: entries_two_files)
  have mv: "meta_value two_files ''a.ide'' ''serial number'' = Some (IntV 10118)"
    "meta_value two_files ''b.ide'' ''serial number'' = Some (IntV 10119)"
    "meta_value two_files ''a.ide'' ''start time'' = Some (DateTime 1600000500)"
    "meta_value two_files ''b.ide'' ''start time'' = Some (DateTime 1700000000)"
    by (simp_all add: meta_value_def recording_meta_def two_files_def make_meta_def ds_a_def
        ds_b_def dict_get_def bind_def)
  show ?thesis
    using b aggregate_two_files rows cols len mv by auto
qed

end
